theory Spec2Isabelle
  imports Main "HOL-Library.List_Lexorder" "HOL-Library.Option_ord"
begin

section \<open>Data model\<close>

text \<open>
  The exceptions the module raises or lets through. Python raises \<open>ValueError\<close> with a
  message in each of the three places of \<open>parquet.py\<close>; the constructors carry the names
  the specification gives them:
  \<^item> \<open>NoDataColumns\<close>: "No data left to save outside partition columns" (line 89);
  \<^item> \<open>UnsupportedCategoricalType\<close>: "'category' column dtypes are currently not supported
    by the gpu accelerated parquet writer" (lines 232-235);
  \<^item> \<open>ContentEncoding\<close>: "URL content-encoding decompression is not supported" (line 182);
  \<^item> \<open>KeyError\<close>: a column label that the dataframe does not have.
  \<^item> \<open>TypeError\<close>: a \<open>None\<close> handed to the metadata merger in place of a metadata object.
  The remaining constructors are the failures of the codec engine.
\<close>

datatype error =
    KeyError
  | NoDataColumns
  | UnsupportedCategoricalType
  | ContentEncoding
  | FileNotFound
  | CorruptFooter
  | CorruptChunk
  | SchemaMismatch
  | UnknownColumn
  | TypeError

text \<open>
  A dataframe: its columns in order (label and dtype name), and its rows in order, each
  row carrying its index label and one cell per column. A table has all its columns of
  equal length (the invariant of the specification's section 3): where a cell is read by
  the position of its column, a row with one cell per column is meant.
\<close>

type_synonym 'v row = "nat \<times> 'v list"

record 'v dataframe =
  columns :: "(string \<times> string) list"
  rows :: "'v row list"

definition column_names :: "'v dataframe \<Rightarrow> string list" where
  "column_names df = map fst (columns df)"

definition col_pos :: "string list \<Rightarrow> string \<Rightarrow> nat" where
  "col_pos names c = length (takeWhile (\<lambda>n. n \<noteq> c) names)"

text \<open>
  Modelled from the spec: \<open>DataFrame.__getitem__\<close> is not under src/. \<open>df[cols]\<close> read row
  by row is the partition-key tuple of the specification's section 3: the cells of one row
  in the columns \<open>cols\<close>, in the order of \<open>cols\<close>.
\<close>

definition key_of :: "'v dataframe \<Rightarrow> string list \<Rightarrow> 'v row \<Rightarrow> 'v list" where
  "key_of df cols r = map (\<lambda>c. snd r ! col_pos (column_names df) c) cols"

definition getitem_cols :: "'v dataframe \<Rightarrow> string list \<Rightarrow> 'v list list" where
  "getitem_cols df cols = map (key_of df cols) (rows df)"

text \<open>
  Modelled from the spec: \<open>DataFrame.sort_values\<close> is not under src/. The specification
  (4.6 step 1 and section 9) asks for a stable sort of the table by the composite
  partition key; a label that is not a column raises \<open>KeyError\<close>.
\<close>

definition sort_values :: "('v::linorder) dataframe \<Rightarrow> string list \<Rightarrow> error + 'v dataframe" where
  "sort_values df by =
     (if \<not> set by \<subseteq> set (column_names df) then Inl KeyError
      else Inr (df\<lparr>rows := sort_key (key_of df by) (rows df)\<rparr>))"

text \<open>
  Modelled from the spec: \<open>DataFrame.reset_index\<close> is not under src/, and the specification
  leaves the index to the labelling (4.4). With \<open>drop=True\<close> the index labels become
  \<open>0, 1, ..., n - 1\<close> and no column is added.
\<close>

definition reset_index :: "'v dataframe \<Rightarrow> 'v dataframe" where
  "reset_index df = df\<lparr>rows := zip [0..<length (rows df)] (map snd (rows df))\<rparr>"

text \<open>
  Modelled from the spec: \<open>DataFrame.drop_duplicates\<close> is not under src/. It keeps the
  first occurrence of every distinct row, in order: the distinct partition-key tuples of
  the specification's step 1.
\<close>

fun drop_duplicates :: "'a list \<Rightarrow> 'a list" where
  "drop_duplicates [] = []"
| "drop_duplicates (x # xs) = x # drop_duplicates (filter (\<lambda>y. y \<noteq> x) xs)"

text \<open>
  Modelled from the spec: \<open>DataFrame.searchsorted\<close> is not under src/. With
  \<open>side="left"\<close> it gives, for each needle, the lowest position at which the needle can be
  inserted: the linear scan for group boundaries of the specification's section 9.
\<close>

definition searchsorted :: "('a::linorder) list \<Rightarrow> 'a list \<Rightarrow> nat list" where
  "searchsorted xs needles = map (\<lambda>d. length (takeWhile (\<lambda>x. x < d) xs)) needles"

text \<open>
  Modelled from the spec: \<open>DataFrame.iloc\<close> is not under src/. \<open>df.iloc[a:b]\<close> is the
  contiguous range of rows of 4.6 step 1; for non-negative bounds the slice is clipped,
  never an error.
\<close>

definition iloc :: "'v dataframe \<Rightarrow> nat \<Rightarrow> nat \<Rightarrow> 'v dataframe" where
  "iloc df a b = df\<lparr>rows := take (b - a) (drop a (rows df))\<rparr>"

section \<open>Partition groups\<close>

text \<open>
  \<open>_get_partition_groups\<close> (lines 14-28): sort by the partition columns, reset the index
  unless it is to be preserved, take the distinct key tuples, find where each one starts,
  append the row count, and cut the sorted frame between consecutive offsets.
\<close>

definition get_partition_groups ::
  "('v::linorder) dataframe \<Rightarrow> string list \<Rightarrow> bool \<Rightarrow> error + 'v dataframe list" where
  "get_partition_groups df partition_cols preserve_index =
     (case sort_values df partition_cols of
        Inl e \<Rightarrow> Inl e
      | Inr df1 \<Rightarrow>
          let df2 = (if \<not> preserve_index then reset_index df1 else df1);
              divisions = drop_duplicates (getitem_cols df2 partition_cols);
              splits = searchsorted (getitem_cols df2 partition_cols) divisions;
              splits = splits @ [length (getitem_cols df2 partition_cols)]
          in Inr (map (\<lambda>i. iloc df2 (splits ! i) (splits ! (i + 1)))
                    [0..<length splits - 1]))"

text \<open>The sorted frame of lines 19-21 and the offsets of lines 22-24, named for the proofs.\<close>

definition sorted_frame :: "('v::linorder) dataframe \<Rightarrow> string list \<Rightarrow> bool \<Rightarrow> 'v dataframe" where
  "sorted_frame df partition_cols preserve_index =
     (let df1 = df\<lparr>rows := sort_key (key_of df partition_cols) (rows df)\<rparr>
      in if \<not> preserve_index then reset_index df1 else df1)"

definition partition_splits :: "('v::linorder) dataframe \<Rightarrow> string list \<Rightarrow> nat list" where
  "partition_splits df2 partition_cols =
     searchsorted (getitem_cols df2 partition_cols)
       (drop_duplicates (getitem_cols df2 partition_cols))
     @ [length (getitem_cols df2 partition_cols)]"

text \<open>The distinct key tuples of the sorted frame, in order: one per group.\<close>

definition partition_keys :: "('v::linorder) dataframe \<Rightarrow> string list \<Rightarrow> 'v list list" where
  "partition_keys df partition_cols =
     drop_duplicates (map (key_of df partition_cols)
       (sort_key (key_of df partition_cols) (rows df)))"

section \<open>The codec engine\<close>

text \<open>
  \<open>cudf._lib.parquet\<close> (\<open>libparquet\<close>) is not under src/: the writer, the reader and the
  metadata merger below follow sections 3 and 4 of the specification. A cell is
  \<open>'a option\<close>, \<open>None\<close> being a null.
\<close>

datatype compression = Uncompressed | Snappy | Gzip

datatype statistics_level = StatNone | StatRowGroup | StatPage

definition codec_id :: "compression \<Rightarrow> string" where
  "codec_id c = (case c of Uncompressed \<Rightarrow> ''none'' | Snappy \<Rightarrow> ''snappy'' | Gzip \<Rightarrow> ''gzip'')"

definition recognized_codecs :: "string list" where
  "recognized_codecs = [''none'', ''snappy'', ''gzip'']"

datatype 'a encoding = Plain "'a list" | Dictionary "'a list" "nat list"

record 'a chunk_statistics =
  stat_min :: "'a option"
  stat_max :: "'a option"
  stat_null_count :: nat

record 'a column_chunk =
  chunk_encoding :: "'a encoding"
  chunk_validity :: "(bool \<times> nat) list"
  chunk_codec :: string
  chunk_statistics :: "'a chunk_statistics option"

text \<open>
  Modelled from the spec: the run-length encoding of the validity bitmap (4.1): runs of
  equal bits with their lengths.
\<close>

fun rle_encode :: "bool list \<Rightarrow> (bool \<times> nat) list" where
  "rle_encode [] = []"
| "rle_encode (b # bs) =
     (case rle_encode bs of
        [] \<Rightarrow> [(b, 1)]
      | (c, n) # rest \<Rightarrow> if b = c then (c, Suc n) # rest else (b, 1) # (c, n) # rest)"

definition rle_decode :: "(bool \<times> nat) list \<Rightarrow> bool list" where
  "rle_decode runs = concat (map (\<lambda>(b, n). replicate n b) runs)"

definition dict_index :: "'a list \<Rightarrow> 'a \<Rightarrow> nat" where
  "dict_index dict v = length (takeWhile (\<lambda>d. d \<noteq> v) dict)"

text \<open>
  Modelled from the spec: the encoding selection of \<open>ColumnChunkCodec.encode\<close> (4.1):
  dictionary encoding when distinct/total is below 0.5, plain encoding otherwise.
\<close>

definition encode_values :: "'a list \<Rightarrow> 'a encoding" where
  "encode_values vs =
     (let dict = drop_duplicates vs
      in if 2 * length dict < length vs then Dictionary dict (map (dict_index dict) vs)
         else Plain vs)"

definition decode_values :: "'a encoding \<Rightarrow> 'a list option" where
  "decode_values e =
     (case e of
        Plain vs \<Rightarrow> Some vs
      | Dictionary dict idx \<Rightarrow>
          if \<forall>i\<in>set idx. i < length dict then Some (map (\<lambda>i. dict ! i) idx) else None)"

definition compute_statistics :: "('a::linorder) option list \<Rightarrow> 'a chunk_statistics" where
  "compute_statistics col =
     (let vs = concat (map (\<lambda>c. case c of None \<Rightarrow> [] | Some v \<Rightarrow> [v]) col)
      in \<lparr>stat_min = (case vs of [] \<Rightarrow> None | v # rest \<Rightarrow> Some (fold min rest v)),
          stat_max = (case vs of [] \<Rightarrow> None | v # rest \<Rightarrow> Some (fold max rest v)),
          stat_null_count = length (filter (\<lambda>c. c = None) col)\<rparr>)"

text \<open>
  Modelled from the spec: \<open>ColumnChunkCodec.encode\<close> (4.1). The non-null values are encoded,
  the validity bitmap is run-length encoded whatever the value encoding, the codec
  identifier is stored alongside, and the statistics are computed unless switched off.
  The bytes of the compressed payload are outside this model.
\<close>

definition encode_chunk ::
  "compression \<Rightarrow> statistics_level \<Rightarrow> ('a::linorder) option list \<Rightarrow> 'a column_chunk" where
  "encode_chunk compression statistics col =
     \<lparr>chunk_encoding =
        encode_values (concat (map (\<lambda>c. case c of None \<Rightarrow> [] | Some v \<Rightarrow> [v]) col)),
      chunk_validity = rle_encode (map (\<lambda>c. c \<noteq> None) col),
      chunk_codec = codec_id compression,
      chunk_statistics = (if statistics = StatNone then None else Some (compute_statistics col))\<rparr>"

text \<open>
  Modelled from the spec: decoding reproduces the values and the null positions (4.1): the
  values go back to the valid positions of the bitmap, and a payload that does not fit the
  bitmap is corrupt.
\<close>

fun fill_column :: "bool list \<Rightarrow> 'a list \<Rightarrow> 'a option list option" where
  "fill_column [] [] = Some []"
| "fill_column [] (v # vs) = None"
| "fill_column (False # bs) vs = map_option (\<lambda>col. None # col) (fill_column bs vs)"
| "fill_column (True # bs) [] = None"
| "fill_column (True # bs) (v # vs) = map_option (\<lambda>col. Some v # col) (fill_column bs vs)"

text \<open>
  Modelled from the spec: \<open>ColumnChunkCodec.decode\<close> (4.1); \<open>CorruptChunk\<close> for an
  unrecognized codec identifier or a payload that does not fit its bitmap.
\<close>

definition decode_chunk :: "'a column_chunk \<Rightarrow> error + 'a option list" where
  "decode_chunk c =
     (if chunk_codec c \<notin> set recognized_codecs then Inl CorruptChunk
      else case decode_values (chunk_encoding c) of
             None \<Rightarrow> Inl CorruptChunk
           | Some vs \<Rightarrow>
               (case fill_column (rle_decode (chunk_validity c)) vs of
                  None \<Rightarrow> Inl CorruptChunk
                | Some col \<Rightarrow> Inr col))"

record 'a row_group =
  rg_num_rows :: nat
  rg_chunks :: "'a column_chunk list"

text \<open>
  Modelled from the spec: the on-disk format of section 6, without its bytes: the footer's
  schema, the row groups, and the footer's custom key-value metadata, which records the
  index labels when the index is written.
\<close>

record 'a parquet_file =
  footer_schema :: "(string \<times> string) list"
  file_row_groups :: "'a row_group list"
  footer_index :: "nat list option"

text \<open>
  Modelled from the spec: \<open>RowGroupAssembler.assemble\<close> (4.2): one chunk per column of the
  schema over the rows of the slice, and the row count.
\<close>

definition assemble ::
  "compression \<Rightarrow> statistics_level \<Rightarrow> nat \<Rightarrow> ('a::linorder) option list list \<Rightarrow> 'a row_group" where
  "assemble compression statistics ncols slice =
     \<lparr>rg_num_rows = length slice,
      rg_chunks = map (\<lambda>j. encode_chunk compression statistics (map (\<lambda>cells. cells ! j) slice)) [0..<ncols]\<rparr>"

text \<open>
  Modelled from the spec: the buffer of \<open>FileWriter\<close> (4.3): a row group is cut every \<open>n\<close>
  rows and the remainder is flushed at close, even if smaller. With \<open>n = 0\<close> nothing is
  cut before close.
\<close>

function chunk_rows :: "nat \<Rightarrow> 'r list \<Rightarrow> 'r list list" where
  "chunk_rows n xs =
     (if xs = [] then []
      else if n = 0 then [xs]
      else take n xs # chunk_rows n (drop n xs))"
  by pat_completeness auto
termination
  by (relation "measure (\<lambda>(n, xs). length xs)") auto

declare chunk_rows.simps [simp del]

text \<open>
  Modelled from the spec: \<open>FileMetadata\<close> (section 3): the schema, the row-group
  descriptors with their stored file-path annotation, and the optional relative file path.
\<close>

record row_group_descriptor =
  rgd_num_rows :: nat
  rgd_file_path :: "string option"

record file_metadata =
  md_schema :: "(string \<times> string) list"
  md_row_groups :: "row_group_descriptor list"
  md_file_path :: "string option"

text \<open>
  Modelled from the spec: the file that \<open>FileWriter\<close> (4.3) leaves for given slices of the
  table's rows: the schema is the table's, every slice is assembled into a row group, and
  the index labels go to the footer unless \<open>index\<close> is \<open>False\<close>.
\<close>

definition file_of_parts ::
  "('a::linorder) option dataframe \<Rightarrow> bool option \<Rightarrow> compression \<Rightarrow> statistics_level
   \<Rightarrow> 'a option list list list \<Rightarrow> 'a parquet_file" where
  "file_of_parts df index compression statistics parts =
     \<lparr>footer_schema = columns df,
      file_row_groups = map (assemble compression statistics (length (columns df))) parts,
      footer_index = (if index = Some False then None else Some (map fst (rows df)))\<rparr>"

text \<open>
  Modelled from the spec: \<open>FileWriter\<close> (4.3), from \<open>open\<close> to \<open>close\<close> for one table: the
  rows are cut into row groups of \<open>row_group_size_rows\<close>.
\<close>

definition encode_file ::
  "nat \<Rightarrow> ('a::linorder) option dataframe \<Rightarrow> bool option \<Rightarrow> compression \<Rightarrow> statistics_level
   \<Rightarrow> 'a parquet_file" where
  "encode_file row_group_size_rows df index compression statistics =
     file_of_parts df index compression statistics
       (chunk_rows row_group_size_rows (map snd (rows df)))"

text \<open>
  Modelled from the spec: the \<open>FileMetadata\<close> that \<open>FileWriter.close\<close> returns (4.3), with
  \<open>metadataFilePath\<close> embedded in it and stored with each of its row groups.
\<close>

definition metadata_of :: "'a parquet_file \<Rightarrow> string option \<Rightarrow> file_metadata" where
  "metadata_of f metadata_file_path =
     \<lparr>md_schema = footer_schema f,
      md_row_groups =
        map (\<lambda>rg. \<lparr>rgd_num_rows = rg_num_rows rg, rgd_file_path = metadata_file_path\<rparr>)
          (file_row_groups f),
      md_file_path = metadata_file_path\<rparr>"

section \<open>File system\<close>

text \<open>
  The filesystem object and what the calls have done to it: the separator \<open>fs.sep\<close>, the
  directories \<open>fs.mkdirs\<close> has made, the files written (in order, path and content), and
  how many names \<open>guid()\<close> has handed out.
\<close>

record 'a fs_state =
  sep :: string
  dirs :: "string list"
  files :: "(string \<times> 'a parquet_file) list"
  guid_count :: nat

definition mkdirs :: "string \<Rightarrow> 'a fs_state \<Rightarrow> 'a fs_state" where
  "mkdirs path st = (if path \<in> set (dirs st) then st else st\<lparr>dirs := dirs st @ [path]\<rparr>)"

definition lookup_file :: "'a fs_state \<Rightarrow> string \<Rightarrow> 'a parquet_file option" where
  "lookup_file st path = map_of (rev (files st)) path"

text \<open>\<open>fs.sep.join(parts)\<close>.\<close>

fun join :: "string \<Rightarrow> string list \<Rightarrow> string" where
  "join s [] = []"
| "join s [x] = x"
| "join s (x # y # ys) = x @ s @ join s (y # ys)"

text \<open>
  What the module takes from outside this repository, and the writer's configuration:
  \<open>guid\<close> (pyarrow's unique names, by call number), \<open>str\<close> of a cell in a format string,
  the row-group size of the writer, \<open>ioutils.get_filepath_or_buffer\<close>, and the CPU
  fallback (\<open>pq.read_pandas\<close>, \<open>DataFrame.from_arrow\<close>, \<open>pq.write_to_dataset\<close> after
  \<open>df.to_arrow\<close>). \<open>'x\<close> is the type of the extra positional and keyword arguments,
  \<open>empty_args\<close> being none of them, and \<open>'t\<close> the type of an Arrow table.
\<close>

record 'x to_parquet_kwargs =
  kw_return_metadata :: "bool option"
  kw_other :: 'x

record ('a, 'x, 't) env =
  guid :: "nat \<Rightarrow> string"
  str_value :: "'a option \<Rightarrow> string"
  row_group_size_rows :: nat
  empty_args :: 'x
  get_filepath_or_buffer :: "string \<Rightarrow> 'x \<Rightarrow> error + string \<times> string option"
  pq_read_pandas :: "string \<Rightarrow> string list option \<Rightarrow> 'x \<Rightarrow> 'x \<Rightarrow> 'a fs_state \<Rightarrow> error + 't"
  from_arrow :: "'t \<Rightarrow> 'a option dataframe"
  pq_write_to_dataset ::
    "'a option dataframe \<Rightarrow> bool \<Rightarrow> string \<Rightarrow> string list option \<Rightarrow> 'x
     \<Rightarrow> 'x to_parquet_kwargs \<Rightarrow> 'a fs_state \<Rightarrow> error option \<times> 'a fs_state"

text \<open>
  Modelled from the spec: \<open>libparquet.write_parquet\<close> is not under src/. It is the
  \<open>FileWriter\<close> of 4.3 run on one table: the file appears at \<open>path\<close> and the returned
  \<open>FileMetadata\<close> embeds \<open>metadata_file_path\<close>.
\<close>

definition libparquet_write_parquet ::
  "('a::linorder, 'x, 't) env \<Rightarrow> 'a option dataframe \<Rightarrow> string \<Rightarrow> bool option \<Rightarrow> compression
   \<Rightarrow> statistics_level \<Rightarrow> string option \<Rightarrow> 'a fs_state
   \<Rightarrow> (error + file_metadata option) \<times> 'a fs_state" where
  "libparquet_write_parquet E df path index compression statistics metadata_file_path st =
     (let f = encode_file (row_group_size_rows E) df index compression statistics
      in (Inr (Some (metadata_of f metadata_file_path)), st\<lparr>files := files st @ [(path, f)]\<rparr>))"

text \<open>
  Modelled from the spec: \<open>libparquet.merge_filemetadata\<close> is not under src/. It is the
  \<open>MetadataMerger\<close> of 4.5: all schemas identical or \<open>SchemaMismatch\<close>; the row groups of
  the inputs in input order, each annotated with the file path of the metadata it comes
  from; a single input is returned unchanged.
\<close>

definition merge_filemetadata :: "file_metadata list \<Rightarrow> error + file_metadata" where
  "merge_filemetadata metadata_list =
     (case metadata_list of
        [] \<Rightarrow> Inl SchemaMismatch
      | [m] \<Rightarrow> Inr m
      | m # ms \<Rightarrow>
          if \<exists>m'\<in>set ms. md_schema m' \<noteq> md_schema m then Inl SchemaMismatch
          else Inr \<lparr>md_schema = md_schema m,
                    md_row_groups =
                      concat (map (\<lambda>m'. map (\<lambda>rg. rg\<lparr>rgd_file_path := md_file_path m'\<rparr>)
                                          (md_row_groups m')) metadata_list),
                    md_file_path = None\<rparr>)"

section \<open>The module\<close>

text \<open>
  \<open>merge_parquet_filemetadata\<close> (lines 257-261) hands its list to the merger. The list
  holds what \<open>to_parquet\<close> returned, which can be \<open>None\<close>.
\<close>

definition merge_parquet_filemetadata ::
  "file_metadata option list \<Rightarrow> error + file_metadata option" where
  "merge_parquet_filemetadata filemetadata_list =
     (if None \<in> set filemetadata_list then Inl TypeError
      else case merge_filemetadata (map the filemetadata_list) of
             Inl e \<Rightarrow> Inl e
           | Inr m \<Rightarrow> Inr (Some m))"

text \<open>
  Modelled from the spec: \<open>Index.drop\<close> is not under src/. \<open>df.columns.drop(labels)\<close> gives
  the columns that remain after dropping the partition columns (4.6); a missing label is a
  \<open>KeyError\<close>.
\<close>

definition index_drop :: "string list \<Rightarrow> string list \<Rightarrow> error + string list" where
  "index_drop names labels =
     (if \<not> set labels \<subseteq> set names then Inl KeyError
      else Inr (filter (\<lambda>n. n \<notin> set labels) names))"

text \<open>
  Modelled from the spec: \<open>DataFrame.drop\<close> is not under src/. \<open>df.drop(columns=labels)\<close> is
  the group with the partition columns dropped (4.6 step 2), cell by cell; a missing label
  is a \<open>KeyError\<close>.
\<close>

definition without_columns :: "'v dataframe \<Rightarrow> string list \<Rightarrow> 'v dataframe" where
  "without_columns df labels =
     df\<lparr>columns := filter (\<lambda>c. fst c \<notin> set labels) (columns df),
        rows := map (\<lambda>r. (fst r,
                   map snd (filter (\<lambda>cv. fst (fst cv) \<notin> set labels)
                              (zip (columns df) (snd r)))))
                 (rows df)\<rparr>"

definition drop_columns :: "'v dataframe \<Rightarrow> string list \<Rightarrow> error + 'v dataframe" where
  "drop_columns df labels =
     (if \<not> set labels \<subseteq> set (column_names df) then Inl KeyError
      else Inr (without_columns df labels))"

text \<open>
  The keyword arguments. \<open>to_parquet\<close> hands its \<open>**kwargs\<close> on to \<open>write_to_dataset\<close>,
  which takes \<open>return_metadata\<close> from them; \<open>write_to_dataset\<close> hands its own on to
  \<open>to_parquet\<close> (the docstring: "kwargs for to_parquet function"), which takes \<open>engine\<close>,
  \<open>compression\<close> and \<open>statistics\<close> from them. An absent keyword is \<open>None\<close> and takes the
  default of the signature; \<open>kw_other\<close> and \<open>kw_more\<close> are the keywords neither function
  names.
\<close>

record 'x dataset_kwargs =
  kw_engine :: "string option"
  kw_compression :: "compression option"
  kw_statistics :: "statistics_level option"
  kw_more :: 'x

text \<open>
  \<open>to_parquet\<close> (lines 204-254) when \<open>partition_cols\<close> is \<open>None\<close> or empty: the category
  check and the accelerated writer for \<open>engine = "cudf"\<close> (lines 229-244), the CPU fallback
  otherwise (lines 245-254). This is what every call from \<open>write_to_dataset\<close> reaches,
  since \<open>partition_cols\<close> is a parameter of \<open>write_to_dataset\<close> and never in its
  \<open>**kwargs\<close>.
\<close>

definition to_parquet_file ::
  "('a::linorder, 'x, 't) env \<Rightarrow> 'a option dataframe \<Rightarrow> string \<Rightarrow> string \<Rightarrow> compression
   \<Rightarrow> bool option \<Rightarrow> string list option \<Rightarrow> statistics_level \<Rightarrow> string option \<Rightarrow> 'x
   \<Rightarrow> 'x to_parquet_kwargs \<Rightarrow> 'a fs_state
   \<Rightarrow> (error + file_metadata option) \<times> 'a fs_state" where
  "to_parquet_file E df path engine compression index partition_cols statistics
       metadata_file_path args kwargs st =
     (if engine = ''cudf'' then
        if \<exists>col\<in>set (columns df). snd col = ''category''
        then (Inl UnsupportedCategoricalType, st)
        else libparquet_write_parquet E df path index compression statistics
               metadata_file_path st
      else
        let index = (if index = None then Some True else index)
        in case pq_write_to_dataset E df (index = Some True) path partition_cols args kwargs st of
             (Some e, st') \<Rightarrow> (Inl e, st')
           | (None, st') \<Rightarrow> (Inr None, st'))"

text \<open>
  The method call \<open>write_df.to_parquet(full_path, index=preserve_index, ..., **kwargs)\<close> of
  lines 116-124 and 131-139: no positional extras, no partition columns, and the keywords
  of \<open>**kwargs\<close> in place.
\<close>

definition engine_of :: "'x dataset_kwargs \<Rightarrow> string" where
  "engine_of kwargs = (case kw_engine kwargs of None \<Rightarrow> ''cudf'' | Some e \<Rightarrow> e)"

definition compression_of :: "'x dataset_kwargs \<Rightarrow> compression" where
  "compression_of kwargs = (case kw_compression kwargs of None \<Rightarrow> Snappy | Some c \<Rightarrow> c)"

definition statistics_of :: "'x dataset_kwargs \<Rightarrow> statistics_level" where
  "statistics_of kwargs = (case kw_statistics kwargs of None \<Rightarrow> StatRowGroup | Some s \<Rightarrow> s)"

definition to_parquet_kw ::
  "('a::linorder, 'x, 't) env \<Rightarrow> 'a option dataframe \<Rightarrow> string \<Rightarrow> bool option \<Rightarrow> string option
   \<Rightarrow> 'x dataset_kwargs \<Rightarrow> 'a fs_state \<Rightarrow> (error + file_metadata option) \<times> 'a fs_state" where
  "to_parquet_kw E df path index metadata_file_path kwargs st =
     to_parquet_file E df path (engine_of kwargs) (compression_of kwargs) index None
       (statistics_of kwargs) metadata_file_path (empty_args E)
       \<lparr>kw_return_metadata = None, kw_other = kw_more kwargs\<rparr> st"

text \<open>The subdirectory of a group (lines 99-107): \<open>col=value\<close> segments joined by \<open>fs.sep\<close>.\<close>

definition subdir_of ::
  "('a, 'x, 't) env \<Rightarrow> string \<Rightarrow> string list \<Rightarrow> 'a option list \<Rightarrow> string" where
  "subdir_of E s partition_cols keys =
     join s (map (\<lambda>(name, val). name @ ''='' @ str_value E val) (zip partition_cols keys))"

text \<open>
  The loop of lines 92-124 over the partition groups. \<open>metadata\<close> is the list the loop
  appends to; an exception leaves the loop with the file system as it then is.
\<close>

fun write_groups ::
  "('a::linorder, 'x, 't) env \<Rightarrow> string \<Rightarrow> string list \<Rightarrow> bool option \<Rightarrow> bool
   \<Rightarrow> 'x dataset_kwargs \<Rightarrow> 'a option dataframe list \<Rightarrow> file_metadata option list
   \<Rightarrow> 'a fs_state \<Rightarrow> (error + file_metadata option list) \<times> 'a fs_state" where
  "write_groups E root_path partition_cols preserve_index return_metadata kwargs
       [] metadata st = (Inr metadata, st)"
| "write_groups E root_path partition_cols preserve_index return_metadata kwargs
       (sub_df # rest) metadata st =
     (if length (rows sub_df) = 0
      then write_groups E root_path partition_cols preserve_index return_metadata kwargs
             rest metadata st
      else
        let keys = key_of sub_df partition_cols (hd (rows sub_df));
            subdir = subdir_of E (sep st) partition_cols keys;
            prefix = join (sep st) [root_path, subdir];
            st1 = mkdirs prefix st;
            outfile = guid E (guid_count st1) @ ''.parquet'';
            st2 = st1\<lparr>guid_count := Suc (guid_count st1)\<rparr>;
            full_path = join (sep st) [prefix, outfile]
        in case drop_columns sub_df partition_cols of
             Inl e \<Rightarrow> (Inl e, st2)
           | Inr write_df \<Rightarrow>
               if return_metadata then
                 (case to_parquet_kw E write_df full_path preserve_index
                         (Some (join (sep st) [subdir, outfile])) kwargs st2 of
                    (Inl e, st3) \<Rightarrow> (Inl e, st3)
                  | (Inr md, st3) \<Rightarrow>
                      write_groups E root_path partition_cols preserve_index return_metadata
                        kwargs rest (metadata @ [md]) st3)
               else
                 (case to_parquet_kw E write_df full_path preserve_index None kwargs st2 of
                    (Inl e, st3) \<Rightarrow> (Inl e, st3)
                  | (Inr md, st3) \<Rightarrow>
                      write_groups E root_path partition_cols preserve_index return_metadata
                        kwargs rest metadata st3))"

text \<open>Lines 141-146: what \<open>write_to_dataset\<close> returns for the metadata it has collected.\<close>

definition return_of_metadata :: "file_metadata option list \<Rightarrow> error + file_metadata option" where
  "return_of_metadata metadata =
     (if metadata \<noteq> [] then
        (if length metadata > 1 then merge_parquet_filemetadata metadata
         else Inr (metadata ! 0))
      else Inr None)"

text \<open>
  \<open>write_to_dataset\<close> (lines 41-146). The file system object that \<open>_ensure_filesystem\<close>
  gives (lines 31-36, 81) is the state: its separator, and what \<open>mkdirs\<close> and the writer
  have done to it.
\<close>

definition write_to_dataset ::
  "('a::linorder, 'x, 't) env \<Rightarrow> 'a option dataframe \<Rightarrow> string \<Rightarrow> string list option
   \<Rightarrow> bool option \<Rightarrow> bool \<Rightarrow> 'x dataset_kwargs \<Rightarrow> 'a fs_state
   \<Rightarrow> (error + file_metadata option) \<times> 'a fs_state" where
  "write_to_dataset E df root_path partition_cols preserve_index return_metadata kwargs
       st0 =
     (let st = mkdirs root_path st0
      in if partition_cols \<noteq> None \<and> length (the partition_cols) > 0 then
           (case index_drop (column_names df) (the partition_cols) of
              Inl e \<Rightarrow> (Inl e, st)
            | Inr data_cols \<Rightarrow>
                if length data_cols = 0 then (Inl NoDataColumns, st)
                else
                  (case get_partition_groups df (the partition_cols)
                          (preserve_index = Some True) of
                     Inl e \<Rightarrow> (Inl e, st)
                   | Inr groups \<Rightarrow>
                       (case write_groups E root_path (the partition_cols) preserve_index
                               return_metadata kwargs groups [] st of
                          (Inl e, st') \<Rightarrow> (Inl e, st')
                        | (Inr metadata, st') \<Rightarrow> (return_of_metadata metadata, st'))))
         else
           let outfile = guid E (guid_count st) @ ''.parquet'';
               st1 = st\<lparr>guid_count := Suc (guid_count st)\<rparr>;
               full_path = join (sep st) [root_path, outfile]
           in if return_metadata then
                (case to_parquet_kw E df full_path preserve_index (Some outfile) kwargs st1 of
                   (Inl e, st') \<Rightarrow> (Inl e, st')
                 | (Inr md, st') \<Rightarrow> (return_of_metadata [md], st'))
              else
                (case to_parquet_kw E df full_path preserve_index None kwargs st1 of
                   (Inl e, st') \<Rightarrow> (Inl e, st')
                 | (Inr md, st') \<Rightarrow> (return_of_metadata [], st')))"

text \<open>
  \<open>to_parquet\<close> (lines 204-254). With \<open>engine = "cudf"\<close> and partition columns it calls
  \<open>write_to_dataset\<close> and returns \<open>None\<close> (lines 219-227); otherwise it is
  \<open>to_parquet_file\<close>. The named parameters \<open>engine\<close>, \<open>compression\<close>, \<open>statistics\<close> and
  \<open>metadata_file_path\<close> and the positional extras are not in \<open>**kwargs\<close>, so
  \<open>write_to_dataset\<close> does not receive them.
\<close>

definition to_parquet ::
  "('a::linorder, 'x, 't) env \<Rightarrow> 'a option dataframe \<Rightarrow> string \<Rightarrow> string \<Rightarrow> compression
   \<Rightarrow> bool option \<Rightarrow> string list option \<Rightarrow> statistics_level \<Rightarrow> string option \<Rightarrow> 'x
   \<Rightarrow> 'x to_parquet_kwargs \<Rightarrow> 'a fs_state
   \<Rightarrow> (error + file_metadata option) \<times> 'a fs_state" where
  "to_parquet E df path engine compression index partition_cols statistics
       metadata_file_path args kwargs st =
     (if engine = ''cudf'' \<and> partition_cols \<noteq> None \<and> the partition_cols \<noteq> [] then
        (case write_to_dataset E df path partition_cols index
                (kw_return_metadata kwargs = Some True)
                \<lparr>kw_engine = None, kw_compression = None, kw_statistics = None,
                 kw_more = kw_other kwargs\<rparr> st of
           (Inl e, st') \<Rightarrow> (Inl e, st')
         | (Inr md, st') \<Rightarrow> (Inr None, st'))
      else to_parquet_file E df path engine compression index partition_cols statistics
             metadata_file_path args kwargs st)"

section \<open>What a partitioned write leaves behind\<close>

text \<open>
  Names for the statements about the loop: the file a group is written to, numbered by the
  call of \<open>guid\<close> that names it, the path recorded in its metadata, and its content.
\<close>

definition group_subdir ::
  "('a, 'x, 't) env \<Rightarrow> string \<Rightarrow> string list \<Rightarrow> 'a option dataframe \<Rightarrow> string" where
  "group_subdir E s partition_cols sub_df =
     subdir_of E s partition_cols (key_of sub_df partition_cols (hd (rows sub_df)))"

definition group_metadata_path ::
  "('a, 'x, 't) env \<Rightarrow> string \<Rightarrow> string list \<Rightarrow> nat \<Rightarrow> 'a option dataframe \<Rightarrow> string" where
  "group_metadata_path E s partition_cols k sub_df =
     join s [group_subdir E s partition_cols sub_df, guid E k @ ''.parquet'']"

definition group_full_path ::
  "('a, 'x, 't) env \<Rightarrow> string \<Rightarrow> string \<Rightarrow> string list \<Rightarrow> nat \<Rightarrow> 'a option dataframe \<Rightarrow> string" where
  "group_full_path E s root_path partition_cols k sub_df =
     join s [join s [root_path, group_subdir E s partition_cols sub_df], guid E k @ ''.parquet'']"

definition group_file ::
  "('a::linorder, 'x, 't) env \<Rightarrow> string list \<Rightarrow> bool option \<Rightarrow> 'x dataset_kwargs
   \<Rightarrow> 'a option dataframe \<Rightarrow> 'a parquet_file" where
  "group_file E partition_cols preserve_index kwargs sub_df =
     encode_file (row_group_size_rows E) (without_columns sub_df partition_cols) preserve_index
       (compression_of kwargs) (statistics_of kwargs)"

text \<open>A group the loop can write on the accelerated path: it has a row, it has the
  partition columns, and none of the columns that remain is categorical.\<close>

definition writable :: "string list \<Rightarrow> 'v dataframe \<Rightarrow> bool" where
  "writable partition_cols sub_df \<longleftrightarrow>
     rows sub_df \<noteq> [] \<and> set partition_cols \<subseteq> set (column_names sub_df)
     \<and> \<not> (\<exists>c\<in>set (columns (without_columns sub_df partition_cols)). snd c = ''category'')"

section \<open>Reading\<close>

fun sequence_sum :: "('e + 'b) list \<Rightarrow> 'e + 'b list" where
  "sequence_sum [] = Inr []"
| "sequence_sum (x # xs) =
     (case x of
        Inl e \<Rightarrow> Inl e
      | Inr v \<Rightarrow> (case sequence_sum xs of Inl e \<Rightarrow> Inl e | Inr vs \<Rightarrow> Inr (v # vs)))"

text \<open>
  Modelled from the spec: \<open>FileReader\<close> driving the codec in reverse (section 2). One row
  group back to rows of cells: every chunk decoded, and the rows read across the
  decoded columns. A footer whose row group does not have one chunk per column of the
  schema is corrupt, and so is a chunk that does not decode to the row count.
\<close>

definition decode_row_group :: "nat \<Rightarrow> 'a row_group \<Rightarrow> error + 'a option list list" where
  "decode_row_group ncols rg =
     (if length (rg_chunks rg) \<noteq> ncols then Inl CorruptFooter
      else case sequence_sum (map decode_chunk (rg_chunks rg)) of
             Inl e \<Rightarrow> Inl e
           | Inr cols \<Rightarrow>
               if \<exists>c\<in>set cols. length c \<noteq> rg_num_rows rg then Inl CorruptChunk
               else Inr (map (\<lambda>i. map (\<lambda>c. c ! i) cols) [0..<rg_num_rows rg]))"

text \<open>
  Modelled from the spec: \<open>FileReader.read\<close> (4.4). Unknown column names fail with
  \<open>UnknownColumn\<close>; \<open>row_group\<close> and \<open>row_group_count\<close> select a contiguous range of row
  groups (all of them by default, to the end when only the start is given) and a range
  past the footer's row groups fails with \<open>SchemaMismatch\<close>; \<open>skip_rows\<close> and \<open>num_rows\<close>
  trim the materialized rows, an out-of-range skip giving an empty result; the index
  recorded in the footer is restored when \<open>use_pandas_metadata\<close> is set, the index being
  \<open>0, 1, ...\<close> otherwise; the projection keeps the requested columns in schema order; and
  \<open>strings_to_categorical\<close> turns the string columns (dtype \<open>object\<close>) into categorical
  ones after decoding.
\<close>

definition read_file ::
  "'a parquet_file \<Rightarrow> string list option \<Rightarrow> nat option \<Rightarrow> nat option \<Rightarrow> nat option \<Rightarrow> nat option
   \<Rightarrow> bool \<Rightarrow> bool \<Rightarrow> error + 'a option dataframe" where
  "read_file f columns' row_group row_group_count skip_rows num_rows strings_to_categorical
       use_pandas_metadata =
     (let schema = footer_schema f;
          total = length (file_row_groups f);
          start = (case row_group of None \<Rightarrow> 0 | Some g \<Rightarrow> g);
          count = (case row_group_count of None \<Rightarrow> total - start | Some n \<Rightarrow> n)
      in if (case columns' of None \<Rightarrow> False | Some cs \<Rightarrow> \<not> set cs \<subseteq> set (map fst schema))
         then Inl UnknownColumn
         else if start + count > total then Inl SchemaMismatch
         else
           case sequence_sum (map (decode_row_group (length schema))
                                (take count (drop start (file_row_groups f)))) of
             Inl e \<Rightarrow> Inl e
           | Inr groups \<Rightarrow>
               let rows_before = sum_list (map rg_num_rows (take start (file_row_groups f)));
                   skip = (case skip_rows of None \<Rightarrow> 0 | Some k \<Rightarrow> k);
                   cells = (case num_rows of
                              None \<Rightarrow> drop skip (concat groups)
                            | Some n \<Rightarrow> take n (drop skip (concat groups)));
                   labels = (case (if use_pandas_metadata then footer_index f else None) of
                               None \<Rightarrow> [0..<length cells]
                             | Some ls \<Rightarrow> take (length cells) (drop (rows_before + skip) ls));
                   keep = (\<lambda>c. case columns' of None \<Rightarrow> True | Some cs \<Rightarrow> fst c \<in> set cs);
                   dtype = (\<lambda>t. if strings_to_categorical \<and> t = ''object'' then ''category''
                                  else t)
               in if length labels \<noteq> length cells then Inl CorruptFooter
                  else Inr \<lparr>columns = map (\<lambda>c. (fst c, dtype (snd c))) (filter keep schema),
                            rows = zip labels
                                     (map (\<lambda>cs. map snd (filter (\<lambda>cv. keep (fst cv)) (zip schema cs)))
                                        cells)\<rparr>)"

text \<open>
  Modelled from the spec: \<open>libparquet.read_parquet\<close> is not under src/. It opens the file
  at the path and is the \<open>FileReader\<close> of 4.4 from there.
\<close>

definition libparquet_read_parquet ::
  "'a fs_state \<Rightarrow> string \<Rightarrow> string list option \<Rightarrow> nat option \<Rightarrow> nat option \<Rightarrow> nat option
   \<Rightarrow> nat option \<Rightarrow> bool \<Rightarrow> bool \<Rightarrow> error + 'a option dataframe" where
  "libparquet_read_parquet st path columns' row_group row_group_count skip_rows num_rows
       strings_to_categorical use_pandas_metadata =
     (case lookup_file st path of
        None \<Rightarrow> Inl FileNotFound
      | Some f \<Rightarrow> read_file f columns' row_group row_group_count skip_rows num_rows
                   strings_to_categorical use_pandas_metadata)"

text \<open>
  \<open>read_parquet\<close> (lines 162-200). The parameter \<open>columns\<close> is written \<open>columns'\<close>, the name
  \<open>columns\<close> being the dataframe's field. The warning of line 196 changes no value and is
  left out.
\<close>

definition read_parquet ::
  "('a, 'x, 't) env \<Rightarrow> string \<Rightarrow> string \<Rightarrow> string list option \<Rightarrow> nat option \<Rightarrow> nat option
   \<Rightarrow> nat option \<Rightarrow> nat option \<Rightarrow> bool \<Rightarrow> bool \<Rightarrow> 'x \<Rightarrow> 'x \<Rightarrow> 'a fs_state
   \<Rightarrow> error + 'a option dataframe" where
  "read_parquet E filepath_or_buffer engine columns' row_group row_group_count skip_rows
       num_rows strings_to_categorical use_pandas_metadata args kwargs st =
     (case get_filepath_or_buffer E filepath_or_buffer kwargs of
        Inl e \<Rightarrow> Inl e
      | Inr (filepath_or_buffer, compression) \<Rightarrow>
          if compression \<noteq> None then Inl ContentEncoding
          else if engine = ''cudf'' then
            libparquet_read_parquet st filepath_or_buffer columns' row_group row_group_count
              skip_rows num_rows strings_to_categorical use_pandas_metadata
          else
            (case pq_read_pandas E filepath_or_buffer columns' args kwargs st of
               Inl e \<Rightarrow> Inl e
             | Inr pa_table \<Rightarrow> Inr (from_arrow E pa_table)))"

section \<open>A small table and a small environment\<close>

text \<open>
  The example of the specification's section 8: \<open>id = [1, 2, 3, 4]\<close> and
  \<open>grp = [x, y, x, y]\<close>, the two group labels written as the numbers 10 and 20.
\<close>

definition example_df :: "nat option dataframe" where
  "example_df =
     \<lparr>columns = [(''id'', ''int64''), (''grp'', ''int64'')],
      rows = [(0, [Some 1, Some 10]), (1, [Some 2, Some 20]),
              (2, [Some 3, Some 10]), (3, [Some 4, Some 20])]\<rparr>"

function str_nat :: "nat \<Rightarrow> string" where
  "str_nat n =
     (if n < 10 then [char_of (48 + n)] else str_nat (n div 10) @ [char_of (48 + n mod 10)])"
  by pat_completeness auto
termination
  by (relation "measure id") auto

declare str_nat.simps [simp del]

text \<open>
  An environment for the examples: names \<open>g0, g1, ...\<close> from \<open>guid\<close>, cells printed in
  decimal, row groups of two rows, paths passed through with no content encoding, and a
  CPU fallback that writes one uncompressed file at the path and reads a whole file.
\<close>

definition example_env :: "(nat, unit, nat option dataframe) env" where
  "example_env =
     \<lparr>guid = (\<lambda>n. ''g'' @ str_nat n),
      str_value = (\<lambda>v. case v of None \<Rightarrow> ''None'' | Some n \<Rightarrow> str_nat n),
      row_group_size_rows = 2,
      empty_args = (),
      get_filepath_or_buffer = (\<lambda>path kwargs. Inr (path, None)),
      pq_read_pandas = (\<lambda>path columns' args kwargs st.
         case lookup_file st path of
           None \<Rightarrow> Inl FileNotFound
         | Some f \<Rightarrow> read_file f columns' None None None None False True),
      from_arrow = (\<lambda>t. t),
      pq_write_to_dataset = (\<lambda>df index path partition_cols args kwargs st.
         (None, st\<lparr>files := files st
                     @ [(path, encode_file 0 df (Some index) Uncompressed StatNone)]\<rparr>))\<rparr>"

definition example_fs :: "nat fs_state" where
  "example_fs = \<lparr>sep = ''/'', dirs = [], files = [], guid_count = 0\<rparr>"

definition no_kwargs :: "unit dataset_kwargs" where
  "no_kwargs = \<lparr>kw_engine = None, kw_compression = None, kw_statistics = None, kw_more = ()\<rparr>"

text \<open>A table whose only column is the partition column, and a table with a categorical
  partition column.\<close>

definition key_only_df :: "nat option dataframe" where
  "key_only_df = \<lparr>columns = [(''grp'', ''int64'')], rows = [(0, [Some 10])]\<rparr>"

definition category_key_df :: "nat option dataframe" where
  "category_key_df =
     \<lparr>columns = [(''id'', ''int64''), (''grp'', ''category'')],
      rows = [(0, [Some 1, Some 10])]\<rparr>"

definition category_df :: "nat option dataframe" where
  "category_df =
     \<lparr>columns = [(''id'', ''int64''), (''kind'', ''category'')],
      rows = [(0, [Some 1, Some 10])]\<rparr>"

text \<open>The file system after \<open>example_df.to_parquet("f.parquet")\<close> on the accelerated path.\<close>

definition example_written :: "nat fs_state" where
  "example_written =
     snd (to_parquet example_env example_df ''f.parquet'' ''cudf'' Snappy None None StatRowGroup
            None () \<lparr>kw_return_metadata = None, kw_other = ()\<rparr> example_fs)"

text \<open>A table with two partition columns \<open>a\<close> and \<open>b\<close>, its rows not in key order, and a
  table whose rows all have the same key.\<close>

definition two_key_df :: "nat option dataframe" where
  "two_key_df =
     \<lparr>columns = [(''a'', ''int64''), (''b'', ''int64''), (''v'', ''int64'')],
      rows = [(0, [Some 2, Some 10, Some 7]), (1, [Some 1, Some 20, Some 5])]\<rparr>"

definition one_key_df :: "nat option dataframe" where
  "one_key_df =
     \<lparr>columns = [(''id'', ''int64''), (''grp'', ''int64'')],
      rows = [(0, [Some 1, Some 10]), (1, [Some 2, Some 10])]\<rparr>"

section \<open>Partition groups: the offsets and the slices\<close>


lemma set_drop_duplicates [simp]: "set (drop_duplicates xs) = set xs"
  by (induction xs rule: drop_duplicates.induct) auto

lemma distinct_drop_duplicates [simp]: "distinct (drop_duplicates xs)"
  by (induction xs rule: drop_duplicates.induct) auto

lemma sorted_drop_duplicates: "sorted xs \<Longrightarrow> sorted (drop_duplicates xs)"
  by (induction xs rule: drop_duplicates.induct) (auto intro: sorted_wrt_filter)

lemma sorted_split_less:
  "sorted (map f xs) \<Longrightarrow> xs = filter (\<lambda>x. f x < d) xs @ filter (\<lambda>x. \<not> f x < d) xs"
proof (induction xs)
  case Nil
  then show ?case by simp
next
  case (Cons x xs)
  show ?case
  proof (cases "f x < d")
    case True
    with Cons show ?thesis by simp
  next
    case False
    from Cons.prems have "\<forall>y\<in>set xs. f x \<le> f y" by simp
    with False have "\<forall>y\<in>set xs. \<not> f y < d" by auto
    then have "filter (\<lambda>x. f x < d) xs = []" "filter (\<lambda>x. \<not> f x < d) xs = xs"
      by (simp_all add: filter_empty_conv)
    with False show ?thesis by simp
  qed
qed

lemma takeWhile_sorted_less:
  "sorted (map f xs) \<Longrightarrow> takeWhile (\<lambda>x. f x < d) xs = filter (\<lambda>x. f x < d) xs"
proof (induction xs)
  case Nil
  then show ?case by simp
next
  case (Cons x xs)
  show ?case
  proof (cases "f x < d")
    case True
    with Cons show ?thesis by simp
  next
    case False
    from Cons.prems have "\<forall>y\<in>set xs. f x \<le> f y" by simp
    with False have "\<forall>y\<in>set xs. \<not> f y < d" by auto
    then have "filter (\<lambda>x. f x < d) xs = []"
      by (simp_all add: filter_empty_conv)
    with False show ?thesis by simp
  qed
qed


lemma slice_between:
  assumes "sorted (map f rs)" and "d \<le> e"
  shows "take (length (filter (\<lambda>r. f r < e) rs) - length (filter (\<lambda>r. f r < d) rs))
           (drop (length (filter (\<lambda>r. f r < d) rs)) rs)
         = filter (\<lambda>r. d \<le> f r \<and> f r < e) rs"
proof -
  let ?A = "filter (\<lambda>r. f r < d) rs" and ?B = "filter (\<lambda>r. \<not> f r < d) rs"
  have rs: "rs = ?A @ ?B" using assms(1) by (rule sorted_split_less)
  have dropA: "drop (length ?A) rs = ?B"
    by (subst (2) rs) simp
  have sB: "sorted (map f ?B)" using assms(1) by (rule sorted_filter)
  have B: "?B = filter (\<lambda>r. f r < e) ?B @ filter (\<lambda>r. \<not> f r < e) ?B"
    using sB by (rule sorted_split_less)
  have "filter (\<lambda>r. f r < e) rs = filter (\<lambda>r. f r < e) ?A @ filter (\<lambda>r. f r < e) ?B"
    by (subst rs) simp
  moreover have "filter (\<lambda>r. f r < e) ?A = ?A"
    using assms(2) by (auto intro!: filter_cong)
  ultimately have len: "length (filter (\<lambda>r. f r < e) rs) - length ?A
      = length (filter (\<lambda>r. f r < e) ?B)"
    by simp
  have "take (length (filter (\<lambda>r. f r < e) ?B)) ?B = filter (\<lambda>r. f r < e) ?B"
    by (subst (2) B) simp
  moreover have "filter (\<lambda>r. f r < e) ?B = filter (\<lambda>r. d \<le> f r \<and> f r < e) rs"
    by (auto intro: filter_cong)
  ultimately show ?thesis using dropA len by simp
qed

lemma slice_last:
  assumes "sorted (map f rs)"
  shows "take (length rs - length (filter (\<lambda>r. f r < d) rs))
           (drop (length (filter (\<lambda>r. f r < d) rs)) rs)
         = filter (\<lambda>r. d \<le> f r) rs"
proof -
  let ?A = "filter (\<lambda>r. f r < d) rs" and ?B = "filter (\<lambda>r. \<not> f r < d) rs"
  have rs: "rs = ?A @ ?B" using assms(1) by (rule sorted_split_less)
  have dropA: "drop (length ?A) rs = ?B"
    by (subst (2) rs) simp
  have "length rs - length ?A = length ?B"
    by (subst rs) simp
  moreover have "?B = filter (\<lambda>r. d \<le> f r) rs"
    by (auto intro: filter_cong)
  ultimately show ?thesis using dropA by simp
qed

lemma strict_sorted_between:
  assumes "sorted ds" "distinct ds" "Suc i < length ds" "x \<in> set ds"
    and "ds ! i \<le> x" "x < ds ! Suc i"
  shows "x = ds ! i"
proof -
  from assms(4) obtain m where m: "m < length ds" "ds ! m = x"
    by (auto simp: in_set_conv_nth)
  have "\<not> m < i"
  proof
    assume "m < i"
    then have "m \<le> i" by simp
    moreover have "i < length ds" using assms(3) by simp
    ultimately have "ds ! m \<le> ds ! i" using assms(1) by (simp add: sorted_nth_mono)
    with m assms(5) have "ds ! m = ds ! i" by simp
    moreover have "i < length ds" using assms(3) by simp
    ultimately have "m = i" using assms(2) m(1) by (simp add: nth_eq_iff_index_eq)
    with \<open>m < i\<close> show False by simp
  qed
  moreover have "\<not> Suc i \<le> m"
  proof
    assume "Suc i \<le> m"
    then have "ds ! Suc i \<le> ds ! m" using assms(1) m(1) by (simp only: sorted_nth_mono)
    with m assms(6) show False by simp
  qed
  ultimately have "m = i" by simp
  with m show ?thesis by simp
qed


lemma sorted_distinct_nth_less:
  assumes "sorted ds" "distinct ds" "i < j" "j < length ds"
  shows "ds ! i < ds ! j"
proof -
  have "ds ! i \<le> ds ! j" using assms by (simp add: sorted_nth_mono)
  moreover have "ds ! i \<noteq> ds ! j" using assms by (simp add: nth_eq_iff_index_eq)
  ultimately show ?thesis by simp
qed

lemma sorted_nth_le_last:
  assumes "sorted ds" "x \<in> set ds" "Suc i = length ds"
  shows "x \<le> ds ! i"
proof -
  from assms(2) obtain m where m: "m < length ds" "ds ! m = x"
    by (auto simp: in_set_conv_nth)
  then have "m \<le> i" using assms(3) by simp
  moreover have "i < length ds" using assms(3) by simp
  ultimately have "ds ! m \<le> ds ! i" using assms(1) by (simp add: sorted_nth_mono)
  with m show ?thesis by simp
qed

lemma searchsorted_length [simp]: "length (searchsorted xs ds) = length ds"
  by (simp add: searchsorted_def)

lemma searchsorted_nth:
  assumes "sorted (map f rs)" "i < length ds"
  shows "searchsorted (map f rs) ds ! i = length (filter (\<lambda>r. f r < ds ! i) rs)"
proof -
  have "takeWhile (\<lambda>x. x < ds ! i) (map f rs) = map f (takeWhile (\<lambda>r. f r < ds ! i) rs)"
    by (simp add: takeWhile_map comp_def)
  also have "\<dots> = map f (filter (\<lambda>r. f r < ds ! i) rs)"
    using assms(1) by (simp only: takeWhile_sorted_less)
  finally have "length (takeWhile (\<lambda>x. x < ds ! i) (map f rs))
      = length (filter (\<lambda>r. f r < ds ! i) rs)"
    by simp
  then show ?thesis
    using assms(2) by (simp add: searchsorted_def)
qed

text \<open>The rows between two consecutive offsets are the rows of one key.\<close>

lemma group_slice:
  fixes f :: "'r \<Rightarrow> 'k::linorder"
  assumes srt: "sorted (map f rs)"
    and ds: "ds = drop_duplicates (map f rs)"
    and sp: "splits = searchsorted (map f rs) ds @ [length (map f rs)]"
    and i: "i < length ds"
  shows "take (splits ! (i + 1) - splits ! i) (drop (splits ! i) rs)
         = filter (\<lambda>r. f r = ds ! i) rs"
proof -
  have sds: "sorted ds" and dds: "distinct ds" and setds: "set ds = f ` set rs"
    using srt ds by (simp_all add: sorted_drop_duplicates)
  have si: "splits ! i = length (filter (\<lambda>r. f r < ds ! i) rs)"
    using i srt by (simp add: sp nth_append searchsorted_nth)
  show ?thesis
  proof (cases "Suc i < length ds")
    case True
    have sj: "splits ! (i + 1) = length (filter (\<lambda>r. f r < ds ! Suc i) rs)"
      using True srt by (simp add: sp nth_append searchsorted_nth)
    have lt: "ds ! i < ds ! Suc i"
      using sds dds True by (simp add: sorted_distinct_nth_less)
    have eq: "filter (\<lambda>r. ds ! i \<le> f r \<and> f r < ds ! Suc i) rs = filter (\<lambda>r. f r = ds ! i) rs"
    proof (rule filter_cong[OF refl])
      fix r assume "r \<in> set rs"
      then have "f r \<in> set ds" using setds by simp
      then show "(ds ! i \<le> f r \<and> f r < ds ! Suc i) = (f r = ds ! i)"
        using strict_sorted_between[OF sds dds True] lt by auto
    qed
    have le: "ds ! i \<le> ds ! Suc i" using lt by simp
    show ?thesis
      by (simp only: si sj slice_between[OF srt le] eq)
  next
    case False
    with i have last: "Suc i = length ds" by simp
    have sj: "splits ! (i + 1) = length rs"
      using last by (simp add: sp nth_append)
    have eq: "filter (\<lambda>r. ds ! i \<le> f r) rs = filter (\<lambda>r. f r = ds ! i) rs"
    proof (rule filter_cong[OF refl])
      fix r assume "r \<in> set rs"
      then have "f r \<in> set ds" using setds by simp
      then have "f r \<le> ds ! i" using sds last by (simp add: sorted_nth_le_last)
      then show "(ds ! i \<le> f r) = (f r = ds ! i)" by auto
    qed
    show ?thesis
      by (simp only: si sj slice_last[OF srt] eq)
  qed
qed

lemma group_slice_nonempty:
  fixes f :: "'r \<Rightarrow> 'k::linorder"
  assumes "ds = drop_duplicates (map f rs)" "i < length ds"
  shows "filter (\<lambda>r. f r = ds ! i) rs \<noteq> []"
proof -
  have "ds ! i \<in> set ds" using assms(2) by simp
  then have "ds ! i \<in> f ` set rs" using assms(1) by simp
  then show ?thesis by (auto simp: filter_empty_conv)
qed


lemma concat_slices:
  "sorted offs \<Longrightarrow> offs \<noteq> [] \<Longrightarrow>
   concat (map (\<lambda>i. take (offs ! (i + 1) - offs ! i) (drop (offs ! i) xs)) [0..<length offs - 1])
   = take (last offs - hd offs) (drop (hd offs) xs)"
proof (induction offs rule: induct_list012)
  case 1
  then show ?case by simp
next
  case (2 a)
  then show ?case by simp
next
  case (3 a b rest)
  have ab: "a \<le> b" and bl: "b \<le> last (b # rest)" and srt: "sorted (b # rest)"
    using "3.prems"(1) by auto
  have IH: "concat (map (\<lambda>i. take ((b # rest) ! (i + 1) - (b # rest) ! i) (drop ((b # rest) ! i) xs))
               [0..<length rest])
            = take (last (b # rest) - b) (drop b xs)"
    using "3.IH"(2)[OF srt] by simp
  have "[0..<length (a # b # rest) - 1] = 0 # map Suc [0..<length rest]"
    by (simp add: upt_conv_Cons map_Suc_upt del: upt_Suc)
  then have "concat (map (\<lambda>i. take ((a # b # rest) ! (i + 1) - (a # b # rest) ! i)
                 (drop ((a # b # rest) ! i) xs)) [0..<length (a # b # rest) - 1])
      = take (b - a) (drop a xs)
        @ concat (map (\<lambda>i. take ((b # rest) ! (i + 1) - (b # rest) ! i) (drop ((b # rest) ! i) xs))
               [0..<length rest])"
    by (simp add: comp_def)
  also have "\<dots> = take (b - a) (drop a xs) @ take (last (b # rest) - b) (drop b xs)"
    by (simp only: IH)
  also have "drop b xs = drop (b - a) (drop a xs)"
    using ab by simp
  also have "take (b - a) (drop a xs) @ take (last (b # rest) - b) (drop (b - a) (drop a xs))
      = take ((b - a) + (last (b # rest) - b)) (drop a xs)"
    by (simp only: take_add)
  also have "(b - a) + (last (b # rest) - b) = last (a # b # rest) - hd (a # b # rest)"
    using ab bl by simp
  finally show ?case by simp
qed


lemma key_of_cong_columns:
  "columns df' = columns df \<Longrightarrow> key_of df' cols = key_of df cols"
  by (simp add: key_of_def column_names_def fun_eq_iff)

lemma key_of_snd: "snd r = snd r' \<Longrightarrow> key_of df cols r = key_of df cols r'"
  by (simp add: key_of_def)

lemma map_key_of_reset:
  "map (key_of df cols) (zip [0..<length rs] (map snd rs)) = map (key_of df cols) rs"
proof (rule nth_equalityI)
  show "length (map (key_of df cols) (zip [0..<length rs] (map snd rs)))
      = length (map (key_of df cols) rs)"
    by simp
next
  fix i assume "i < length (map (key_of df cols) (zip [0..<length rs] (map snd rs)))"
  then have i: "i < length rs" by simp
  then have "key_of df cols (zip [0..<length rs] (map snd rs) ! i) = key_of df cols (rs ! i)"
    by (intro key_of_snd) simp
  with i show "map (key_of df cols) (zip [0..<length rs] (map snd rs)) ! i
      = map (key_of df cols) rs ! i"
    by simp
qed

lemma columns_sorted_frame [simp]: "columns (sorted_frame df cols p) = columns df"
  by (simp add: sorted_frame_def reset_index_def Let_def)

lemma key_of_sorted_frame [simp]:
  "key_of (sorted_frame df cols p) cs = key_of df cs"
  by (rule key_of_cong_columns) simp

lemma rows_sorted_frame:
  "rows (sorted_frame df cols p) =
     (if p then sort_key (key_of df cols) (rows df)
      else zip [0..<length (rows df)] (map snd (sort_key (key_of df cols) (rows df))))"
  by (simp add: sorted_frame_def reset_index_def Let_def)

lemma cells_sorted_frame:
  "map snd (rows (sorted_frame df cols p)) = map snd (sort_key (key_of df cols) (rows df))"
  by (simp add: rows_sorted_frame)

lemma keys_sorted_frame:
  "map (key_of df cols) (rows (sorted_frame df cols p))
   = map (key_of df cols) (sort_key (key_of df cols) (rows df))"
  using map_key_of_reset[of df cols "sort_key (key_of df cols) (rows df)"]
  by (simp add: rows_sorted_frame)

lemma sorted_keys_sorted_frame:
  "sorted (map (key_of df cols) (rows (sorted_frame df cols p)))"
  by (simp only: keys_sorted_frame sorted_sort_key)

lemma set_keys_sorted_frame:
  "key_of df cols ` set (rows (sorted_frame df cols p)) = key_of df cols ` set (rows df)"
proof -
  have "set (map (key_of df cols) (rows (sorted_frame df cols p)))
      = set (map (key_of df cols) (sort_key (key_of df cols) (rows df)))"
    by (simp only: keys_sorted_frame)
  then show ?thesis by simp
qed

lemma getitem_sorted_frame:
  "getitem_cols (sorted_frame df cols p) cs = map (key_of df cs) (rows (sorted_frame df cols p))"
  by (simp add: getitem_cols_def)

lemma get_partition_groups_eq:
  "get_partition_groups df cols p =
     (if \<not> set cols \<subseteq> set (column_names df) then Inl KeyError
      else Inr (map (\<lambda>i. iloc (sorted_frame df cols p)
                        (partition_splits (sorted_frame df cols p) cols ! i)
                        (partition_splits (sorted_frame df cols p) cols ! (i + 1)))
                 [0..<length (partition_splits (sorted_frame df cols p) cols) - 1]))"
  by (simp add: get_partition_groups_def sort_values_def sorted_frame_def partition_splits_def
      Let_def)


lemma partition_splits_sorted_frame:
  "partition_splits (sorted_frame df cols p) cols
   = searchsorted (map (key_of df cols) (rows (sorted_frame df cols p))) (partition_keys df cols)
     @ [length (map (key_of df cols) (rows (sorted_frame df cols p)))]"
  by (simp only: partition_splits_def getitem_sorted_frame partition_keys_def keys_sorted_frame)

lemma partition_keys_sorted_frame:
  "partition_keys df cols
   = drop_duplicates (map (key_of df cols) (rows (sorted_frame df cols p)))"
  by (simp only: partition_keys_def keys_sorted_frame)

lemma length_partition_splits:
  "length (partition_splits (sorted_frame df cols p) cols) = length (partition_keys df cols) + 1"
  by (simp add: partition_splits_sorted_frame)

lemma group_rows:
  assumes "i < length (partition_keys df cols)"
  shows "take (partition_splits (sorted_frame df cols p) cols ! (i + 1)
               - partition_splits (sorted_frame df cols p) cols ! i)
           (drop (partition_splits (sorted_frame df cols p) cols ! i)
              (rows (sorted_frame df cols p)))
         = filter (\<lambda>r. key_of df cols r = partition_keys df cols ! i)
             (rows (sorted_frame df cols p))"
  using sorted_keys_sorted_frame partition_keys_sorted_frame partition_splits_sorted_frame assms
  by (rule group_slice)

lemma group_rows_nonempty:
  assumes "i < length (partition_keys df cols)"
  shows "filter (\<lambda>r. key_of df cols r = partition_keys df cols ! i)
           (rows (sorted_frame df cols p)) \<noteq> []"
  using partition_keys_sorted_frame assms by (rule group_slice_nonempty)

lemma partition_splits_step:
  assumes "i < length (partition_keys df cols)"
  shows "partition_splits (sorted_frame df cols p) cols ! i
         < partition_splits (sorted_frame df cols p) cols ! (i + 1)"
proof (rule ccontr)
  assume "\<not> ?thesis"
  then have "partition_splits (sorted_frame df cols p) cols ! (i + 1)
             - partition_splits (sorted_frame df cols p) cols ! i = 0"
    by simp
  then have "filter (\<lambda>r. key_of df cols r = partition_keys df cols ! i)
           (rows (sorted_frame df cols p)) = []"
    using group_rows[OF assms, of p] by simp
  with group_rows_nonempty[OF assms, of p] show False by simp
qed

lemma partition_splits_increasing:
  "sorted_wrt (<) (partition_splits (sorted_frame df cols p) cols)"
proof -
  have "transp ((<) :: nat \<Rightarrow> nat \<Rightarrow> bool)" by (rule transp_on_less)
  moreover have "\<forall>i. Suc i < length (partition_splits (sorted_frame df cols p) cols) \<longrightarrow>
      partition_splits (sorted_frame df cols p) cols ! i
      < partition_splits (sorted_frame df cols p) cols ! Suc i"
    using partition_splits_step[of _ df cols p] by (simp add: length_partition_splits)
  ultimately show ?thesis by (simp only: sorted_wrt_iff_nth_Suc_transp)
qed

lemma partition_splits_sorted:
  "sorted (partition_splits (sorted_frame df cols p) cols)"
  using partition_splits_increasing[of df cols p] by (simp add: strict_sorted_iff)

lemma last_partition_splits:
  "last (partition_splits (sorted_frame df cols p) cols) = length (rows (sorted_frame df cols p))"
  by (simp add: partition_splits_sorted_frame)

lemma hd_partition_splits:
  "hd (partition_splits (sorted_frame df cols p) cols) = 0"
proof (cases "partition_keys df cols")
  case Nil
  then have "map (key_of df cols) (rows (sorted_frame df cols p)) = []"
    using partition_keys_sorted_frame[of df cols p]
    by (cases "map (key_of df cols) (rows (sorted_frame df cols p))") simp_all
  with Nil show ?thesis by (simp add: partition_splits_sorted_frame searchsorted_def)
next
  case (Cons d ds)
  let ?rs = "rows (sorted_frame df cols p)"
  have srt: "sorted (map (key_of df cols) ?rs)" by (rule sorted_keys_sorted_frame)
  have "sorted (partition_keys df cols)"
    using srt by (simp only: partition_keys_sorted_frame[of df cols p] sorted_drop_duplicates)
  with Cons have "\<forall>x\<in>set (partition_keys df cols). d \<le> x" by auto
  moreover have "set (partition_keys df cols) = key_of df cols ` set ?rs"
    by (simp add: partition_keys_sorted_frame[of df cols p])
  ultimately have "filter (\<lambda>r. key_of df cols r < d) ?rs = []"
    by (auto simp: filter_empty_conv)
  moreover have "hd (partition_splits (sorted_frame df cols p) cols)
      = searchsorted (map (key_of df cols) ?rs) (partition_keys df cols) ! 0"
    using Cons by (simp add: partition_splits_sorted_frame searchsorted_def)
  moreover have "searchsorted (map (key_of df cols) ?rs) (partition_keys df cols) ! 0
      = length (filter (\<lambda>r. key_of df cols r < partition_keys df cols ! 0) ?rs)"
    using srt Cons by (intro searchsorted_nth) simp_all
  ultimately show ?thesis using Cons by simp
qed

lemma concat_groups:
  "concat (map (\<lambda>i. take (partition_splits (sorted_frame df cols p) cols ! (i + 1)
                          - partition_splits (sorted_frame df cols p) cols ! i)
                      (drop (partition_splits (sorted_frame df cols p) cols ! i)
                         (rows (sorted_frame df cols p))))
             [0..<length (partition_splits (sorted_frame df cols p) cols) - 1])
   = rows (sorted_frame df cols p)"
proof -
  have ne: "partition_splits (sorted_frame df cols p) cols \<noteq> []"
    by (simp add: partition_splits_sorted_frame)
  show ?thesis
    by (simp only: concat_slices[OF partition_splits_sorted ne] hd_partition_splits
        last_partition_splits) simp
qed

section \<open>The partition groups are the key groups of the sorted frame\<close>

lemma rows_iloc [simp]: "rows (iloc df a b) = take (b - a) (drop a (rows df))"
  by (simp add: iloc_def)

lemma columns_iloc [simp]: "columns (iloc df a b) = columns df"
  by (simp add: iloc_def)

lemma set_partition_keys:
  "set (partition_keys df cols) = key_of df cols ` set (rows df)"
  by (simp add: partition_keys_def)

lemma distinct_partition_keys: "distinct (partition_keys df cols)"
  by (simp add: partition_keys_def)

lemma sorted_partition_keys: "sorted (partition_keys df cols)"
  by (simp add: partition_keys_def sorted_drop_duplicates)

text \<open>
  Claim C1. For a dataframe and a non-empty list of partition columns of that dataframe,
  \<open>_get_partition_groups\<close> returns the slices of the sorted frame between consecutive
  split offsets. The offsets are sorted, so the slices are contiguous and pairwise
  disjoint; their concatenation is the frame sorted by the partition columns (index reset
  unless preserved); there is one group per distinct key tuple present in the data; and
  every row of a group carries the key tuple of that group.
\<close>

theorem get_partition_groups_correct:
  assumes "partition_cols \<noteq> []" and "set partition_cols \<subseteq> set (column_names df)"
  shows "\<exists>groups.
     get_partition_groups df partition_cols preserve_index = Inr groups
     \<and> length groups = length (partition_keys df partition_cols)
     \<and> (\<forall>i<length groups.
           groups ! i = iloc (sorted_frame df partition_cols preserve_index)
                          (partition_splits (sorted_frame df partition_cols preserve_index)
                             partition_cols ! i)
                          (partition_splits (sorted_frame df partition_cols preserve_index)
                             partition_cols ! (i + 1)))
     \<and> sorted (partition_splits (sorted_frame df partition_cols preserve_index) partition_cols)
     \<and> concat (map rows groups) = rows (sorted_frame df partition_cols preserve_index)
     \<and> columns (sorted_frame df partition_cols preserve_index) = columns df
     \<and> rows (sorted_frame df partition_cols preserve_index)
         = (if preserve_index then sort_key (key_of df partition_cols) (rows df)
            else zip [0..<length (rows df)]
                   (map snd (sort_key (key_of df partition_cols) (rows df))))
     \<and> distinct (partition_keys df partition_cols)
     \<and> set (partition_keys df partition_cols) = key_of df partition_cols ` set (rows df)
     \<and> (\<forall>i<length groups.
           rows (groups ! i) \<noteq> []
           \<and> (\<forall>r\<in>set (rows (groups ! i)).
                 key_of df partition_cols r = partition_keys df partition_cols ! i))"
proof -
  let ?sf = "sorted_frame df partition_cols preserve_index"
  let ?sp = "partition_splits ?sf partition_cols"
  let ?ks = "partition_keys df partition_cols"
  let ?groups = "map (\<lambda>i. iloc ?sf (?sp ! i) (?sp ! (i + 1))) [0..<length ?sp - 1]"
  have len: "length ?groups = length ?ks"
    by (simp add: length_partition_splits)
  have eq: "get_partition_groups df partition_cols preserve_index = Inr ?groups"
    using assms(2) by (simp only: get_partition_groups_eq) simp
  have nth: "\<forall>i<length ?groups. ?groups ! i = iloc ?sf (?sp ! i) (?sp ! (i + 1))"
    by simp
  have cc: "concat (map rows ?groups) = rows ?sf"
    using concat_groups[of df partition_cols preserve_index] by (simp add: comp_def)
  have grp: "\<forall>i<length ?groups.
           rows (?groups ! i) \<noteq> []
           \<and> (\<forall>r\<in>set (rows (?groups ! i)). key_of df partition_cols r = ?ks ! i)"
  proof (intro allI impI)
    fix i assume "i < length ?groups"
    then have i: "i < length ?ks" using len by simp
    then have "rows (?groups ! i)
        = filter (\<lambda>r. key_of df partition_cols r = ?ks ! i) (rows ?sf)"
      using group_rows[OF i, of preserve_index] by (simp add: length_partition_splits)
    then show "rows (?groups ! i) \<noteq> []
           \<and> (\<forall>r\<in>set (rows (?groups ! i)). key_of df partition_cols r = ?ks ! i)"
      using group_rows_nonempty[OF i, of preserve_index] by simp
  qed
  show ?thesis
    by (intro exI[of _ ?groups] conjI eq len nth cc grp partition_splits_sorted
        columns_sorted_frame rows_sorted_frame distinct_partition_keys set_partition_keys)
qed

text \<open>
  Claim C10. Every group that \<open>_get_partition_groups\<close> returns is non-empty, the split
  offsets being strictly increasing: the test \<open>len(sub_df) == 0\<close> of line 97 is false
  for every group the loop of \<open>write_to_dataset\<close> sees.
\<close>

theorem partition_groups_nonempty:
  assumes "partition_cols \<noteq> []"
    and "get_partition_groups df partition_cols preserve_index = Inr groups"
  shows "(\<forall>g\<in>set groups. length (rows g) \<noteq> 0)
     \<and> sorted_wrt (<) (partition_splits (sorted_frame df partition_cols preserve_index)
                         partition_cols)"
proof -
  let ?sf = "sorted_frame df partition_cols preserve_index"
  let ?sp = "partition_splits ?sf partition_cols"
  have groups: "groups = map (\<lambda>i. iloc ?sf (?sp ! i) (?sp ! (i + 1))) [0..<length ?sp - 1]"
    using assms(2) unfolding get_partition_groups_eq by (simp split: if_splits)
  have "length (rows g) \<noteq> 0" if "g \<in> set groups" for g
  proof -
    from that obtain i where i: "i < length (partition_keys df partition_cols)"
      and g: "g = iloc ?sf (?sp ! i) (?sp ! (i + 1))"
      by (auto simp: groups length_partition_splits)
    have "rows g = filter (\<lambda>r. key_of df partition_cols r = partition_keys df partition_cols ! i)
                     (rows ?sf)"
      using group_rows[OF i, of preserve_index] by (simp add: g)
    then show ?thesis
      using group_rows_nonempty[OF i, of preserve_index] by simp
  qed
  then show ?thesis
    using partition_splits_increasing[of df partition_cols preserve_index] by simp
qed


lemma example_groups:
  "get_partition_groups example_df [''grp''] False
   = Inr [\<lparr>columns = [(''id'', ''int64''), (''grp'', ''int64'')],
            rows = [(0, [Some 1, Some 10]), (1, [Some 3, Some 10])]\<rparr>,
          \<lparr>columns = [(''id'', ''int64''), (''grp'', ''int64'')],
            rows = [(2, [Some 2, Some 20]), (3, [Some 4, Some 20])]\<rparr>]"
  by code_simp

lemma example_partition_keys: "partition_keys example_df [''grp''] = [[Some 10], [Some 20]]"
  by code_simp

lemma example_column_names: "column_names example_df = [''id'', ''grp'']"
  by (simp add: column_names_def example_df_def)

theorem get_partition_groups_correct_witness:
  "[''grp''] \<noteq> [] \<and> set [''grp''] \<subseteq> set (column_names example_df)
   \<and> (\<exists>groups. get_partition_groups example_df [''grp''] False = Inr groups
        \<and> length groups = 2
        \<and> concat (map rows groups) = rows (sorted_frame example_df [''grp''] False)
        \<and> rows (groups ! 0) \<noteq> [])"
proof -
  have h1: "[''grp''] \<noteq> []" by simp
  have h2: "set [''grp''] \<subseteq> set (column_names example_df)"
    by (simp add: example_column_names)
  from get_partition_groups_correct[OF h1 h2, of False]
  show ?thesis using h2 by (auto simp: example_partition_keys)
qed

theorem partition_groups_nonempty_witness:
  "[''grp''] \<noteq> []
   \<and> (\<exists>groups. get_partition_groups example_df [''grp''] False = Inr groups
        \<and> length groups = 2 \<and> length (rows (groups ! 0)) \<noteq> 0 \<and> length (rows (groups ! 1)) \<noteq> 0)
   \<and> sorted_wrt (<) (partition_splits (sorted_frame example_df [''grp''] False) [''grp''])"
proof -
  have h1: "[''grp''] \<noteq> []" by simp
  from partition_groups_nonempty[OF h1 example_groups]
  show ?thesis by (simp add: example_groups)
qed

section \<open>No data columns\<close>

lemma files_mkdirs [simp]: "files (mkdirs path st) = files st"
  by (simp add: mkdirs_def)

lemma sep_mkdirs [simp]: "sep (mkdirs path st) = sep st"
  by (simp add: mkdirs_def)

lemma guid_count_mkdirs [simp]: "guid_count (mkdirs path st) = guid_count st"
  by (simp add: mkdirs_def)

text \<open>
  Claim C6. When the partition-column list is non-empty and dropping the partition columns
  from the table's columns leaves none, \<open>write_to_dataset\<close> fails with \<open>NoDataColumns\<close>
  and no file has been written.
\<close>

theorem no_data_columns:
  assumes "partition_cols \<noteq> []"
    and "index_drop (column_names df) partition_cols = Inr []"
  shows "fst (write_to_dataset E df root_path (Some partition_cols) preserve_index
               return_metadata kwargs st) = Inl NoDataColumns
       \<and> files (snd (write_to_dataset E df root_path (Some partition_cols) preserve_index
               return_metadata kwargs st)) = files st"
  using assms by (simp add: write_to_dataset_def Let_def)

theorem no_data_columns_witness:
  "[''grp''] \<noteq> [] \<and> index_drop (column_names key_only_df) [''grp''] = Inr []
   \<and> fst (write_to_dataset example_env key_only_df ''root'' (Some [''grp'']) None True
            no_kwargs example_fs) = Inl NoDataColumns
   \<and> files (snd (write_to_dataset example_env key_only_df ''root'' (Some [''grp'']) None True
            no_kwargs example_fs)) = []"
proof -
  have h1: "[''grp''] \<noteq> []" by simp
  have h2: "index_drop (column_names key_only_df) [''grp''] = Inr []"
    by (simp add: index_drop_def column_names_def key_only_df_def)
  from no_data_columns[OF h1 h2, of example_env "''root''" None True no_kwargs example_fs]
  show ?thesis using h2 by (simp add: example_fs_def)
qed

section \<open>The CPU fallback of the reader\<close>

text \<open>
  Claim C9. For an engine other than \<open>cudf\<close>, the result of \<open>read_parquet\<close> does not
  depend on \<open>row_group\<close>, \<open>row_group_count\<close>, \<open>skip_rows\<close>, \<open>num_rows\<close>,
  \<open>strings_to_categorical\<close> or \<open>use_pandas_metadata\<close>: two calls that differ only in
  these return the same.
\<close>

theorem read_parquet_fallback_ignores:
  assumes "engine \<noteq> ''cudf''"
  shows "read_parquet E filepath_or_buffer engine columns' row_group row_group_count skip_rows
           num_rows strings_to_categorical use_pandas_metadata args kwargs st
       = read_parquet E filepath_or_buffer engine columns' row_group' row_group_count'
           skip_rows' num_rows' strings_to_categorical' use_pandas_metadata' args kwargs st"
  using assms by (simp add: read_parquet_def split: sum.splits prod.splits)

lemma example_written_read:
  "read_parquet example_env ''f.parquet'' ''pyarrow'' None None None None None False True () ()
     example_written = Inr example_df"
  by code_simp

theorem read_parquet_fallback_ignores_witness:
  "''pyarrow'' \<noteq> ''cudf''
   \<and> read_parquet example_env ''f.parquet'' ''pyarrow'' None (Some 1) (Some 1) (Some 1) (Some 1)
       True False () () example_written = Inr example_df"
proof -
  have h: "''pyarrow'' \<noteq> ''cudf''" by simp
  from read_parquet_fallback_ignores[OF h, of example_env "''f.parquet''" None
      "Some 1" "Some 1" "Some 1" "Some 1" True False "()" "()" example_written
      None None None None False True]
  show ?thesis by (simp add: example_written_read)
qed

section \<open>The loop over the groups\<close>

lemma columns_without_columns [simp]:
  "columns (without_columns df labels) = filter (\<lambda>c. fst c \<notin> set labels) (columns df)"
  by (simp add: without_columns_def)

lemma to_parquet_kw_ok:
  assumes "engine_of kwargs = ''cudf''"
    and "\<not> (\<exists>col\<in>set (columns df). snd col = ''category'')"
  shows "to_parquet_kw E df path index metadata_file_path kwargs st
       = (Inr (Some (metadata_of
                      (encode_file (row_group_size_rows E) df index (compression_of kwargs)
                         (statistics_of kwargs))
                      metadata_file_path)),
          st\<lparr>files := files st
                 @ [(path, encode_file (row_group_size_rows E) df index (compression_of kwargs)
                             (statistics_of kwargs))]\<rparr>)"
  using assms
  by (simp add: to_parquet_kw_def to_parquet_file_def libparquet_write_parquet_def Let_def)

lemma write_groups_step:
  assumes eng: "engine_of kwargs = ''cudf''" and w: "writable partition_cols g"
  shows "write_groups E root_path partition_cols preserve_index return_metadata kwargs
           (g # rest) metadata st
       = write_groups E root_path partition_cols preserve_index return_metadata kwargs rest
           (if return_metadata
            then metadata @ [Some (metadata_of (group_file E partition_cols preserve_index kwargs g)
                      (Some (group_metadata_path E (sep st) partition_cols (guid_count st) g)))]
            else metadata)
           ((mkdirs (join (sep st) [root_path, group_subdir E (sep st) partition_cols g]) st)
              \<lparr>guid_count := Suc (guid_count st),
               files := files st
                 @ [(group_full_path E (sep st) root_path partition_cols (guid_count st) g,
                     group_file E partition_cols preserve_index kwargs g)]\<rparr>)"
proof -
  have nc: "\<not> (\<exists>col\<in>set (columns (without_columns g partition_cols)). snd col = ''category'')"
    using w by (simp add: writable_def)
  have dc: "drop_columns g partition_cols = Inr (without_columns g partition_cols)"
    using w by (simp add: writable_def drop_columns_def)
  have ne: "length (rows g) \<noteq> 0" using w by (simp add: writable_def)
  show ?thesis
    using ne
    by (simp add: Let_def dc to_parquet_kw_ok[OF eng nc] group_file_def group_full_path_def
        group_metadata_path_def group_subdir_def)
qed

lemma write_groups_ok:
  assumes eng: "engine_of kwargs = ''cudf''"
    and gs: "\<forall>g\<in>set gs. writable partition_cols g"
  shows "\<exists>st'. write_groups E root_path partition_cols preserve_index return_metadata kwargs
                 gs metadata st
       = (Inr (metadata @
                (if return_metadata
                 then map (\<lambda>(k, g). Some (metadata_of
                              (group_file E partition_cols preserve_index kwargs g)
                              (Some (group_metadata_path E (sep st) partition_cols k g))))
                        (enumerate (guid_count st) gs)
                 else [])), st')
       \<and> sep st' = sep st
       \<and> guid_count st' = guid_count st + length gs
       \<and> files st' = files st
           @ map (\<lambda>(k, g). (group_full_path E (sep st) root_path partition_cols k g,
                            group_file E partition_cols preserve_index kwargs g))
               (enumerate (guid_count st) gs)"
  using gs
proof (induction gs arbitrary: metadata st)
  case Nil
  then show ?case by simp
next
  case (Cons g rest)
  have w: "writable partition_cols g" and rest: "\<forall>g\<in>set rest. writable partition_cols g"
    using Cons.prems by simp_all
  let ?md = "if return_metadata
            then metadata @ [Some (metadata_of (group_file E partition_cols preserve_index kwargs g)
                      (Some (group_metadata_path E (sep st) partition_cols (guid_count st) g)))]
            else metadata"
  let ?st = "(mkdirs (join (sep st) [root_path, group_subdir E (sep st) partition_cols g]) st)
              \<lparr>guid_count := Suc (guid_count st),
               files := files st
                 @ [(group_full_path E (sep st) root_path partition_cols (guid_count st) g,
                     group_file E partition_cols preserve_index kwargs g)]\<rparr>"
  from Cons.IH[OF rest, of ?md ?st] obtain st' where
    run: "write_groups E root_path partition_cols preserve_index return_metadata kwargs
                 rest ?md ?st
       = (Inr (?md @
                (if return_metadata
                 then map (\<lambda>(k, g). Some (metadata_of
                              (group_file E partition_cols preserve_index kwargs g)
                              (Some (group_metadata_path E (sep ?st) partition_cols k g))))
                        (enumerate (guid_count ?st) rest)
                 else [])), st')"
    and sp: "sep st' = sep ?st"
    and gc: "guid_count st' = guid_count ?st + length rest"
    and fl: "files st' = files ?st
           @ map (\<lambda>(k, g). (group_full_path E (sep ?st) root_path partition_cols k g,
                            group_file E partition_cols preserve_index kwargs g))
               (enumerate (guid_count ?st) rest)"
    by blast
  have sep: "sep ?st = sep st" and gcs: "guid_count ?st = Suc (guid_count st)"
    by simp_all
  show ?case
    apply (rule exI[of _ st'])
    apply (simp only: write_groups_step[OF eng w] run)
    using sp gc fl by (simp add: sep gcs)
qed

section \<open>The groups that reach the loop\<close>

lemma get_partition_groups_map:
  assumes "set cols \<subseteq> set (column_names df)"
  shows "get_partition_groups df cols p
       = Inr (map (\<lambda>i. iloc (sorted_frame df cols p)
                          (partition_splits (sorted_frame df cols p) cols ! i)
                          (partition_splits (sorted_frame df cols p) cols ! (i + 1)))
                [0..<length (partition_keys df cols)])"
  using assms by (simp add: get_partition_groups_eq length_partition_splits)

lemma partition_group_facts:
  assumes ok: "get_partition_groups df cols p = Inr groups"
  shows "length groups = length (partition_keys df cols)"
    and "i < length groups \<Longrightarrow> columns (groups ! i) = columns df"
    and "i < length groups \<Longrightarrow> rows (groups ! i) \<noteq> []"
    and "i < length groups \<Longrightarrow> r \<in> set (rows (groups ! i)) \<Longrightarrow>
           key_of df cols r = partition_keys df cols ! i"
proof -
  have sub: "set cols \<subseteq> set (column_names df)"
    using ok by (simp add: get_partition_groups_eq split: if_splits)
  have groups: "groups = map (\<lambda>i. iloc (sorted_frame df cols p)
                          (partition_splits (sorted_frame df cols p) cols ! i)
                          (partition_splits (sorted_frame df cols p) cols ! (i + 1)))
                [0..<length (partition_keys df cols)]"
    using ok get_partition_groups_map[OF sub, of p] by simp
  show len: "length groups = length (partition_keys df cols)"
    by (simp add: groups)
  show "columns (groups ! i) = columns df" if "i < length groups"
    using that by (simp add: groups)
  have rows_i: "rows (groups ! i)
      = filter (\<lambda>r. key_of df cols r = partition_keys df cols ! i)
          (rows (sorted_frame df cols p))" if "i < length groups"
    using that group_rows[of i df cols p] by (simp add: groups)
  show "rows (groups ! i) \<noteq> []" if "i < length groups"
    using that rows_i group_rows_nonempty[of i df cols p] len by simp
  show "key_of df cols r = partition_keys df cols ! i"
    if "i < length groups" "r \<in> set (rows (groups ! i))"
    using that rows_i by simp
qed

lemma partition_group_key:
  assumes ok: "get_partition_groups df cols p = Inr groups" and i: "i < length groups"
  shows "key_of (groups ! i) cols (hd (rows (groups ! i))) = partition_keys df cols ! i"
proof -
  have "hd (rows (groups ! i)) \<in> set (rows (groups ! i))"
    using partition_group_facts(3)[OF ok i] by simp
  then have "key_of df cols (hd (rows (groups ! i))) = partition_keys df cols ! i"
    using partition_group_facts(4)[OF ok i] by simp
  moreover have "key_of (groups ! i) cols = key_of df cols"
    using partition_group_facts(2)[OF ok i] by (rule key_of_cong_columns)
  ultimately show ?thesis by simp
qed

lemma partition_group_writable:
  assumes ok: "get_partition_groups df cols p = Inr groups"
    and nc: "\<forall>c\<in>set (columns df). fst c \<notin> set cols \<longrightarrow> snd c \<noteq> ''category''"
    and g: "g \<in> set groups"
  shows "writable cols g"
proof -
  from g obtain i where i: "i < length groups" and gi: "g = groups ! i"
    by (auto simp: in_set_conv_nth)
  have sub: "set cols \<subseteq> set (column_names df)"
    using ok by (simp add: get_partition_groups_eq split: if_splits)
  have cg: "columns g = columns df"
    using partition_group_facts(2)[OF ok i] gi by simp
  have "rows g \<noteq> []" using partition_group_facts(3)[OF ok i] gi by simp
  moreover have "set cols \<subseteq> set (column_names g)"
    using sub cg by (simp add: column_names_def)
  moreover have "\<not> (\<exists>c\<in>set (columns (without_columns g cols)). snd c = ''category'')"
    using nc cg by auto
  ultimately show ?thesis by (simp add: writable_def)
qed

lemma merge_filemetadata_same_schema:
  assumes "ms \<noteq> []" and "\<forall>m\<in>set ms. md_schema m = s"
  shows "\<exists>r. merge_filemetadata ms = Inr r"
proof (cases ms)
  case Nil
  with assms(1) show ?thesis by simp
next
  case (Cons m rest)
  show ?thesis
  proof (cases rest)
    case Nil
    with Cons show ?thesis by (simp add: merge_filemetadata_def)
  next
    case (Cons m' rest')
    have "\<not> (\<exists>x\<in>set rest. md_schema x \<noteq> md_schema m)"
      using assms(2) \<open>ms = m # rest\<close> by simp
    then show ?thesis
      using Cons \<open>ms = m # rest\<close> by (simp add: merge_filemetadata_def)
  qed
qed

lemma md_schema_metadata_of [simp]: "md_schema (metadata_of f p) = footer_schema f"
  by (simp add: metadata_of_def)

lemma md_file_path_metadata_of [simp]: "md_file_path (metadata_of f p) = p"
  by (simp add: metadata_of_def)

lemma footer_schema_encode_file [simp]:
  "footer_schema (encode_file n df index c s) = columns df"
  by (simp add: encode_file_def file_of_parts_def)

lemma footer_schema_group_file [simp]:
  "footer_schema (group_file E cols p kwargs g) = filter (\<lambda>c. fst c \<notin> set cols) (columns g)"
  by (simp add: group_file_def without_columns_def)

lemma return_of_metadata_ok:
  assumes "\<forall>m\<in>set mds. \<exists>md. m = Some md \<and> md_schema md = s"
  shows "\<exists>r. return_of_metadata mds = Inr r"
proof (cases "length mds > 1")
  case True
  have nn: "None \<notin> set mds" using assms by auto
  have ne: "map the mds \<noteq> []" using True by auto
  have "\<forall>m\<in>set (map the mds). md_schema m = s" using assms by auto
  with ne obtain r where "merge_filemetadata (map the mds) = Inr r"
    using merge_filemetadata_same_schema by blast
  then show ?thesis
    using True nn by (simp add: return_of_metadata_def merge_parquet_filemetadata_def)
next
  case False
  then show ?thesis by (simp add: return_of_metadata_def)
qed

section \<open>The partitioned write\<close>

lemma enumerate_map_upt:
  "enumerate n xs = map (\<lambda>i. (n + i, xs ! i)) [0..<length xs]"
  by (rule nth_equalityI) (simp_all add: nth_enumerate_eq)

lemma index_drop_data_columns:
  assumes "set cols \<subseteq> set names" and "\<exists>c\<in>set names. c \<notin> set cols"
  shows "\<exists>data_cols. index_drop names cols = Inr data_cols \<and> length data_cols \<noteq> 0"
  using assms by (auto simp: index_drop_def filter_empty_conv)

text \<open>What the partitioned branch of \<open>write_to_dataset\<close> does when every group can be
  written.\<close>

lemma write_to_dataset_groups:
  assumes pcs: "partition_cols \<noteq> []"
    and sub: "set partition_cols \<subseteq> set (column_names df)"
    and data: "\<exists>c\<in>set (column_names df). c \<notin> set partition_cols"
    and nc: "\<forall>c\<in>set (columns df). fst c \<notin> set partition_cols \<longrightarrow> snd c \<noteq> ''category''"
    and eng: "engine_of kwargs = ''cudf''"
    and groups: "get_partition_groups df partition_cols (preserve_index = Some True) = Inr groups"
  shows "\<exists>md st'.
      write_to_dataset E df root_path (Some partition_cols) preserve_index return_metadata
        kwargs st = (Inr md, st')
    \<and> return_of_metadata
         (if return_metadata
          then map (\<lambda>i. Some (metadata_of
                       (group_file E partition_cols preserve_index kwargs (groups ! i))
                       (Some (join (sep st)
                                [subdir_of E (sep st) partition_cols
                                   (partition_keys df partition_cols ! i),
                                 guid E (guid_count st + i) @ ''.parquet'']))))
                 [0..<length groups]
          else []) = Inr md
    \<and> files st' = files st
        @ map (\<lambda>i. (join (sep st)
                       [join (sep st)
                          [root_path,
                           subdir_of E (sep st) partition_cols
                             (partition_keys df partition_cols ! i)],
                        guid E (guid_count st + i) @ ''.parquet''],
                     group_file E partition_cols preserve_index kwargs (groups ! i)))
            [0..<length groups]"
proof -
  let ?st = "mkdirs root_path st"
  let ?p = "preserve_index = Some True"
  let ?ks = "partition_keys df partition_cols"
  let ?F = "\<lambda>(k, g). (group_full_path E (sep ?st) root_path partition_cols k g,
                            group_file E partition_cols preserve_index kwargs g)"
  let ?M = "\<lambda>(k, g). Some (metadata_of
                              (group_file E partition_cols preserve_index kwargs g)
                              (Some (group_metadata_path E (sep ?st) partition_cols k g)))"
  let ?mds = "if return_metadata then map ?M (enumerate (guid_count ?st) groups) else []"
  have w: "\<forall>g\<in>set groups. writable partition_cols g"
    using partition_group_writable[OF groups nc] by blast
  from write_groups_ok[OF eng w, of E root_path preserve_index return_metadata "[]" ?st]
  obtain st' where
    run: "write_groups E root_path partition_cols preserve_index return_metadata kwargs
            groups [] ?st = (Inr ?mds, st')"
    and fl: "files st' = files ?st @ map ?F (enumerate (guid_count ?st) groups)"
    by auto
  have key: "group_subdir E (sep st) partition_cols (groups ! i)
           = subdir_of E (sep st) partition_cols (?ks ! i)" if "i < length groups" for i
    using partition_group_key[OF groups that] by (simp add: group_subdir_def)
  have F: "map ?F (enumerate (guid_count ?st) groups)
      = map (\<lambda>i. (join (sep st)
                       [join (sep st) [root_path, subdir_of E (sep st) partition_cols (?ks ! i)],
                        guid E (guid_count st + i) @ ''.parquet''],
                     group_file E partition_cols preserve_index kwargs (groups ! i)))
            [0..<length groups]"
    by (simp add: enumerate_map_upt comp_def group_full_path_def key)
  have M: "?mds
      = (if return_metadata
          then map (\<lambda>i. Some (metadata_of
                       (group_file E partition_cols preserve_index kwargs (groups ! i))
                       (Some (join (sep st)
                                [subdir_of E (sep st) partition_cols (?ks ! i),
                                 guid E (guid_count st + i) @ ''.parquet'']))))
                 [0..<length groups]
          else [])"
    by (simp add: enumerate_map_upt comp_def group_metadata_path_def key)
  have schema: "\<forall>m\<in>set ?mds. \<exists>md. m = Some md
      \<and> md_schema md = filter (\<lambda>c. fst c \<notin> set partition_cols) (columns df)"
  proof (cases return_metadata)
    case True
    have "columns g = columns df" if "g \<in> set groups" for g
      using that partition_group_facts(2)[OF groups] by (auto simp: in_set_conv_nth)
    then show ?thesis using True by (auto simp: enumerate_eq_zip dest: set_zip_rightD)
  next
    case False
    then show ?thesis by simp
  qed
  from return_of_metadata_ok[OF schema] obtain md where md: "return_of_metadata ?mds = Inr md"
    by blast
  from index_drop_data_columns[OF sub data] obtain data_cols where
    dc: "index_drop (column_names df) partition_cols = Inr data_cols" "length data_cols \<noteq> 0"
    by blast
  have "write_to_dataset E df root_path (Some partition_cols) preserve_index return_metadata
        kwargs st = (Inr md, st')"
    using pcs dc groups run md by (simp add: write_to_dataset_def Let_def)
  moreover have "return_of_metadata
         (if return_metadata
          then map (\<lambda>i. Some (metadata_of
                       (group_file E partition_cols preserve_index kwargs (groups ! i))
                       (Some (join (sep st)
                                [subdir_of E (sep st) partition_cols (?ks ! i),
                                 guid E (guid_count st + i) @ ''.parquet'']))))
                 [0..<length groups]
          else []) = Inr md"
    using md by (simp only: M)
  moreover have "files st' = files st
        @ map (\<lambda>i. (join (sep st)
                       [join (sep st) [root_path, subdir_of E (sep st) partition_cols (?ks ! i)],
                        guid E (guid_count st + i) @ ''.parquet''],
                     group_file E partition_cols preserve_index kwargs (groups ! i)))
            [0..<length groups]"
    using fl by (simp only: F) simp
  ultimately show ?thesis by blast
qed

section \<open>The loop whatever the engine\<close>

lemma to_parquet_kw_fallback:
  assumes "engine_of kwargs \<noteq> ''cudf''"
    and "to_parquet_kw E df path index metadata_file_path kwargs st = (Inr md, st')"
  shows "md = None"
  using assms
  by (auto simp: to_parquet_kw_def to_parquet_file_def Let_def split: prod.splits option.splits)

lemma to_parquet_kw_cudf_returns:
  assumes "engine_of kwargs = ''cudf''"
    and "to_parquet_kw E df path index metadata_file_path kwargs st = (Inr md, st')"
  shows "\<not> (\<exists>col\<in>set (columns df). snd col = ''category'')"
  using assms
  by (auto simp: to_parquet_kw_def to_parquet_file_def split: if_splits)

text \<open>One round of the loop that does not raise.\<close>

lemma write_groups_Cons_returns:
  assumes ne: "rows g \<noteq> []"
    and run: "write_groups E root_path partition_cols preserve_index True kwargs (g # rest)
                metadata st = (Inr mds, st')"
  shows "\<exists>write_df md st3.
      drop_columns g partition_cols = Inr write_df
    \<and> to_parquet_kw E write_df
          (group_full_path E (sep st) root_path partition_cols (guid_count st) g)
          preserve_index
          (Some (group_metadata_path E (sep st) partition_cols (guid_count st) g)) kwargs
          ((mkdirs (join (sep st) [root_path, group_subdir E (sep st) partition_cols g]) st)
             \<lparr>guid_count := Suc (guid_count st)\<rparr>) = (Inr md, st3)
    \<and> write_groups E root_path partition_cols preserve_index True kwargs rest
          (metadata @ [md]) st3 = (Inr mds, st')"
  using ne run
  by (auto simp: Let_def group_full_path_def group_metadata_path_def group_subdir_def
      split: sum.splits prod.splits)

lemma write_groups_length:
  assumes "\<forall>g\<in>set gs. rows g \<noteq> []"
    and "write_groups E root_path partition_cols preserve_index True kwargs gs metadata st
         = (Inr mds, st')"
  shows "length mds = length metadata + length gs"
  using assms
proof (induction gs arbitrary: metadata st)
  case Nil
  then show ?case by simp
next
  case (Cons g rest)
  have ne: "rows g \<noteq> []" and rest: "\<forall>g\<in>set rest. rows g \<noteq> []"
    using Cons.prems(1) by simp_all
  from write_groups_Cons_returns[OF ne Cons.prems(2)] obtain md st3 where
    "write_groups E root_path partition_cols preserve_index True kwargs rest
          (metadata @ [md]) st3 = (Inr mds, st')"
    by blast
  from Cons.IH[OF rest this] show ?case by simp
qed

lemma write_groups_fallback:
  assumes "engine_of kwargs \<noteq> ''cudf''"
    and "\<forall>g\<in>set gs. rows g \<noteq> []"
    and "write_groups E root_path partition_cols preserve_index True kwargs gs metadata st
         = (Inr mds, st')"
  shows "set mds \<subseteq> set metadata \<union> {None}"
  using assms(2,3)
proof (induction gs arbitrary: metadata st)
  case Nil
  then show ?case by auto
next
  case (Cons g rest)
  have ne: "rows g \<noteq> []" and rest: "\<forall>g\<in>set rest. rows g \<noteq> []"
    using Cons.prems(1) by simp_all
  from write_groups_Cons_returns[OF ne Cons.prems(2)] obtain write_df md st3 where
    tp: "to_parquet_kw E write_df
          (group_full_path E (sep st) root_path partition_cols (guid_count st) g)
          preserve_index
          (Some (group_metadata_path E (sep st) partition_cols (guid_count st) g)) kwargs
          ((mkdirs (join (sep st) [root_path, group_subdir E (sep st) partition_cols g]) st)
             \<lparr>guid_count := Suc (guid_count st)\<rparr>) = (Inr md, st3)"
    and run: "write_groups E root_path partition_cols preserve_index True kwargs rest
          (metadata @ [md]) st3 = (Inr mds, st')"
    by blast
  have "md = None" using assms(1) tp by (rule to_parquet_kw_fallback)
  with Cons.IH[OF rest run] show ?case by auto
qed

lemma write_groups_cudf_writable:
  assumes eng: "engine_of kwargs = ''cudf''"
    and "\<forall>g\<in>set gs. rows g \<noteq> []"
    and "write_groups E root_path partition_cols preserve_index True kwargs gs metadata st
         = (Inr mds, st')"
  shows "\<forall>g\<in>set gs. writable partition_cols g"
  using assms(2,3)
proof (induction gs arbitrary: metadata st)
  case Nil
  then show ?case by simp
next
  case (Cons g rest)
  have ne: "rows g \<noteq> []" and rest: "\<forall>g\<in>set rest. rows g \<noteq> []"
    using Cons.prems(1) by simp_all
  from write_groups_Cons_returns[OF ne Cons.prems(2)] obtain write_df md st3 where
    dc: "drop_columns g partition_cols = Inr write_df"
    and tp: "to_parquet_kw E write_df
          (group_full_path E (sep st) root_path partition_cols (guid_count st) g)
          preserve_index
          (Some (group_metadata_path E (sep st) partition_cols (guid_count st) g)) kwargs
          ((mkdirs (join (sep st) [root_path, group_subdir E (sep st) partition_cols g]) st)
             \<lparr>guid_count := Suc (guid_count st)\<rparr>) = (Inr md, st3)"
    and run: "write_groups E root_path partition_cols preserve_index True kwargs rest
          (metadata @ [md]) st3 = (Inr mds, st')"
    by blast
  have sub: "set partition_cols \<subseteq> set (column_names g)"
    and wdf: "write_df = without_columns g partition_cols"
    using dc by (auto simp: drop_columns_def split: if_splits)
  have "\<not> (\<exists>col\<in>set (columns write_df). snd col = ''category'')"
    using eng tp by (rule to_parquet_kw_cudf_returns)
  then have w: "writable partition_cols g"
    using ne sub wdf by (simp add: writable_def)
  from Cons.IH[OF rest run] w show ?case by simp
qed

text \<open>What a partitioned \<open>write_to_dataset\<close> that returns has gone through.\<close>

lemma write_to_dataset_returns:
  assumes "partition_cols \<noteq> []"
    and "write_to_dataset E df root_path (Some partition_cols) preserve_index return_metadata
           kwargs st = (Inr r, st')"
  shows "\<exists>data_cols groups mds.
      index_drop (column_names df) partition_cols = Inr data_cols \<and> data_cols \<noteq> []
    \<and> get_partition_groups df partition_cols (preserve_index = Some True) = Inr groups
    \<and> write_groups E root_path partition_cols preserve_index return_metadata kwargs groups []
         (mkdirs root_path st) = (Inr mds, st')
    \<and> return_of_metadata mds = Inr r"
  using assms
  by (auto simp: write_to_dataset_def Let_def split: sum.splits if_splits prod.splits)

lemma index_drop_Inr:
  assumes "index_drop names cols = Inr data_cols" and "data_cols \<noteq> []"
  shows "set cols \<subseteq> set names" and "\<exists>c\<in>set names. c \<notin> set cols"
proof -
  show sub: "set cols \<subseteq> set names"
    using assms(1) by (auto simp: index_drop_def split: if_splits)
  have "data_cols = filter (\<lambda>n. n \<notin> set cols) names"
    using assms(1) sub by (auto simp: index_drop_def split: if_splits)
  with assms(2) show "\<exists>c\<in>set names. c \<notin> set cols"
    by (auto simp: filter_empty_conv)
qed

lemma writable_no_category:
  assumes ok: "get_partition_groups df cols p = Inr groups"
    and "groups \<noteq> []" and "\<forall>g\<in>set groups. writable cols g"
  shows "\<forall>c\<in>set (columns df). fst c \<notin> set cols \<longrightarrow> snd c \<noteq> ''category''"
proof -
  from assms(2) have g0: "0 < length groups" by simp
  have "columns (groups ! 0) = columns df"
    using partition_group_facts(2)[OF ok g0] .
  moreover have "writable cols (groups ! 0)" using assms(3) g0 by simp
  ultimately show ?thesis by (auto simp: writable_def)
qed

lemma join2 [simp]: "join s [x, y] = x @ s @ y"
  by simp

lemma full_path_from_metadata_path:
  "join s [join s [root_path, subdir], outfile] = root_path @ s @ join s [subdir, outfile]"
  by simp

lemma column_names_without_columns:
  "set (column_names (without_columns g cols)) \<inter> set cols = {}"
  by (auto simp: column_names_def)

text \<open>
  Claim C2, as amended. For a table and a non-empty list of partition columns of the
  table, written on the accelerated path (the engine handed on to \<open>to_parquet\<close> is
  \<open>cudf\<close>, the default), such that a column remains outside the partition columns and
  none of the remaining columns is categorical, \<open>write_to_dataset\<close> succeeds and writes
  one file per distinct partition-key tuple present in the data, in key order. The file
  of a key is placed under the root in the subdirectory that joins, with the separator,
  the segments \<open>col=value\<close> of the partition columns in the order they were given; it is
  named by the next \<open>guid\<close>; and the frame written to it is the group without the
  partition columns.
\<close>

theorem write_to_dataset_one_file_per_key:
  assumes "partition_cols \<noteq> []"
    and "set partition_cols \<subseteq> set (column_names df)"
    and "\<exists>c\<in>set (column_names df). c \<notin> set partition_cols"
    and "\<forall>c\<in>set (columns df). fst c \<notin> set partition_cols \<longrightarrow> snd c \<noteq> ''category''"
    and "engine_of kwargs = ''cudf''"
  shows "\<exists>groups md st'.
      get_partition_groups df partition_cols (preserve_index = Some True) = Inr groups
    \<and> write_to_dataset E df root_path (Some partition_cols) preserve_index return_metadata
        kwargs st = (Inr md, st')
    \<and> length groups = length (partition_keys df partition_cols)
    \<and> distinct (partition_keys df partition_cols)
    \<and> set (partition_keys df partition_cols) = key_of df partition_cols ` set (rows df)
    \<and> files st' = files st
        @ map (\<lambda>i. (join (sep st)
                       [join (sep st)
                          [root_path,
                           join (sep st)
                             (map (\<lambda>(name, val). name @ ''='' @ str_value E val)
                                (zip partition_cols (partition_keys df partition_cols ! i)))],
                        guid E (guid_count st + i) @ ''.parquet''],
                     encode_file (row_group_size_rows E)
                       (without_columns (groups ! i) partition_cols) preserve_index
                       (compression_of kwargs) (statistics_of kwargs)))
            [0..<length (partition_keys df partition_cols)]
    \<and> (\<forall>g\<in>set groups.
          columns (without_columns g partition_cols)
            = filter (\<lambda>c. fst c \<notin> set partition_cols) (columns df)
          \<and> set (column_names (without_columns g partition_cols)) \<inter> set partition_cols = {})"
proof -
  from get_partition_groups_map[OF assms(2), of "preserve_index = Some True"]
  obtain groups where
    groups: "get_partition_groups df partition_cols (preserve_index = Some True) = Inr groups"
    by blast
  have len: "length groups = length (partition_keys df partition_cols)"
    using groups by (rule partition_group_facts(1))
  from write_to_dataset_groups[OF assms groups, where E = E and root_path = root_path
      and return_metadata = return_metadata and st = st]
  obtain md st' where
    run: "write_to_dataset E df root_path (Some partition_cols) preserve_index return_metadata
        kwargs st = (Inr md, st')"
    and fl: "files st' = files st
        @ map (\<lambda>i. (join (sep st)
                       [join (sep st)
                          [root_path,
                           subdir_of E (sep st) partition_cols
                             (partition_keys df partition_cols ! i)],
                        guid E (guid_count st + i) @ ''.parquet''],
                     group_file E partition_cols preserve_index kwargs (groups ! i)))
            [0..<length groups]"
    by blast
  have fl': "files st' = files st
        @ map (\<lambda>i. (join (sep st)
                       [join (sep st)
                          [root_path,
                           join (sep st)
                             (map (\<lambda>(name, val). name @ ''='' @ str_value E val)
                                (zip partition_cols (partition_keys df partition_cols ! i)))],
                        guid E (guid_count st + i) @ ''.parquet''],
                     encode_file (row_group_size_rows E)
                       (without_columns (groups ! i) partition_cols) preserve_index
                       (compression_of kwargs) (statistics_of kwargs)))
            [0..<length (partition_keys df partition_cols)]"
    using fl by (simp add: group_file_def len subdir_of_def)
  have cols: "columns (without_columns g partition_cols)
            = filter (\<lambda>c. fst c \<notin> set partition_cols) (columns df)" if "g \<in> set groups" for g
    using that partition_group_facts(2)[OF groups] by (auto simp: in_set_conv_nth)
  show ?thesis
    using groups run len fl' distinct_partition_keys[of df partition_cols]
      set_partition_keys[of df partition_cols] column_names_without_columns cols
    by blast
qed

lemma two_key_hyps:
  "set [''a'', ''b''] \<subseteq> set (column_names two_key_df)"
  "\<exists>c\<in>set (column_names two_key_df). c \<notin> set [''a'', ''b'']"
  "\<forall>c\<in>set (columns two_key_df). fst c \<notin> set [''a'', ''b''] \<longrightarrow> snd c \<noteq> ''category''"
  "engine_of no_kwargs = ''cudf''"
  by (simp_all add: column_names_def two_key_df_def engine_of_def no_kwargs_def)

lemma two_key_partition_keys:
  "partition_keys two_key_df [''a'', ''b''] = [[Some 1, Some 20], [Some 2, Some 10]]"
  by code_simp

lemma example_str_value:
  "str_value example_env (Some (Suc 0)) = ''1''"
  "str_value example_env (Some 2) = ''2''"
  "str_value example_env (Some 10) = ''10''"
  "str_value example_env (Some 20) = ''20''"
  by code_simp+

lemma example_guids: "guid example_env 0 = ''g0''" "guid example_env (Suc 0) = ''g1''"
  by code_simp+

theorem write_to_dataset_one_file_per_key_witness:
  "[''a'', ''b''] \<noteq> [] \<and> set [''a'', ''b''] \<subseteq> set (column_names two_key_df)
   \<and> (\<exists>c\<in>set (column_names two_key_df). c \<notin> set [''a'', ''b''])
   \<and> engine_of no_kwargs = ''cudf''
   \<and> (\<exists>md st'. write_to_dataset example_env two_key_df ''root'' (Some [''a'', ''b'']) None
                   False no_kwargs example_fs = (Inr md, st')
          \<and> map fst (files st')
             = [''root/a=1/b=20/g0.parquet'', ''root/a=2/b=10/g1.parquet'']
          \<and> map (\<lambda>f. map fst (footer_schema (snd f))) (files st') = [[''v''], [''v'']])"
proof -
  have h1: "[''a'', ''b''] \<noteq> []" by simp
  from write_to_dataset_one_file_per_key[OF h1 two_key_hyps, where E = example_env
      and root_path = "''root''" and preserve_index = None and return_metadata = False
      and st = example_fs]
  obtain groups md st' where
    run: "write_to_dataset example_env two_key_df ''root'' (Some [''a'', ''b'']) None
                   False no_kwargs example_fs = (Inr md, st')"
    and len0: "length groups = length (partition_keys two_key_df [''a'', ''b''])"
    and fl0: "files st' = files example_fs
        @ map (\<lambda>i. (join (sep example_fs)
                       [join (sep example_fs)
                          [''root'',
                           join (sep example_fs)
                             (map (\<lambda>(name, val). name @ ''='' @ str_value example_env val)
                                (zip [''a'', ''b'']
                                   (partition_keys two_key_df [''a'', ''b''] ! i)))],
                        guid example_env (guid_count example_fs + i) @ ''.parquet''],
                     encode_file (row_group_size_rows example_env)
                       (without_columns (groups ! i) [''a'', ''b'']) None
                       (compression_of no_kwargs) (statistics_of no_kwargs)))
            [0..<length (partition_keys two_key_df [''a'', ''b''])]"
    and cols: "\<forall>g\<in>set groups. columns (without_columns g [''a'', ''b''])
            = filter (\<lambda>c. fst c \<notin> set [''a'', ''b'']) (columns two_key_df)
          \<and> set (column_names (without_columns g [''a'', ''b''])) \<inter> set [''a'', ''b''] = {}"
    by blast
  have len: "length groups = 2"
    using len0 by (simp add: two_key_partition_keys)
  have fl: "files st'
        = [(''root/a=1/b=20/g0.parquet'',
            encode_file (row_group_size_rows example_env)
              (without_columns (groups ! 0) [''a'', ''b'']) None
              (compression_of no_kwargs) (statistics_of no_kwargs)),
           (''root/a=2/b=10/g1.parquet'',
            encode_file (row_group_size_rows example_env)
              (without_columns (groups ! 1) [''a'', ''b'']) None
              (compression_of no_kwargs) (statistics_of no_kwargs))]"
    using fl0
    by (simp add: two_key_partition_keys example_str_value example_guids example_fs_def
        upt_rec)
  have "groups ! 0 \<in> set groups" "groups ! 1 \<in> set groups" using len by simp_all
  with cols have "columns (without_columns (groups ! 0) [''a'', ''b'']) = [(''v'', ''int64'')]"
      "columns (without_columns (groups ! 1) [''a'', ''b'']) = [(''v'', ''int64'')]"
    by (simp_all add: two_key_df_def)
  then have "map (\<lambda>f. map fst (footer_schema (snd f))) (files st') = [[''v''], [''v'']]"
    by (simp add: fl)
  then show ?thesis
    using run fl two_key_hyps(1,2,4) by auto
qed

text \<open>
  The claim as stated fails for a table whose only column is the partition column: a key
  tuple is present and no file is written, \<open>write_to_dataset\<close> failing with
  \<open>NoDataColumns\<close>.
\<close>

theorem write_to_dataset_one_file_per_key_counterexample:
  "\<not> (length (files (snd (write_to_dataset example_env key_only_df ''root'' (Some [''grp''])
                          None False no_kwargs example_fs)))
       = length (files example_fs) + length (partition_keys key_only_df [''grp'']))
   \<and> fst (write_to_dataset example_env key_only_df ''root'' (Some [''grp'']) None False
            no_kwargs example_fs) = Inl NoDataColumns
   \<and> partition_keys key_only_df [''grp''] = [[Some 10]]"
proof -
  have k: "partition_keys key_only_df [''grp''] = [[Some 10]]" by code_simp
  have d: "index_drop (column_names key_only_df) [''grp''] = Inr []"
    by (simp add: index_drop_def column_names_def key_only_df_def)
  have w: "write_to_dataset example_env key_only_df ''root'' (Some [''grp'']) None False
            no_kwargs example_fs = (Inl NoDataColumns, mkdirs ''root'' example_fs)"
    by (simp add: write_to_dataset_def d Let_def)
  show ?thesis by (simp add: w k)
qed

section \<open>The paths in the metadata\<close>

text \<open>
  Claim C7. In a partitioned \<open>write_to_dataset\<close> with metadata requested that returns,
  every \<open>FileMetadata\<close> that a group's write returned carries, as its file path and on
  each of its row groups, the path \<open>subdir/outfile\<close>: the segments \<open>col=value\<close> of the
  partition columns in the order given, joined with the separator, then the generated
  file name. The root path is no part of it: the file itself is at the root path, the
  separator, and then this path. On the accelerated path every group has such a
  \<open>FileMetadata\<close>, and \<open>write_to_dataset\<close> returns the same metadata whatever the root
  path is.
\<close>

theorem metadata_file_path_relative:
  assumes "partition_cols \<noteq> []"
    and "write_to_dataset E df root_path (Some partition_cols) preserve_index True kwargs st
         = (Inr r, st')"
  shows "\<exists>groups mds.
      get_partition_groups df partition_cols (preserve_index = Some True) = Inr groups
    \<and> write_groups E root_path partition_cols preserve_index True kwargs groups []
        (mkdirs root_path st) = (Inr mds, st')
    \<and> return_of_metadata mds = Inr r
    \<and> length mds = length (partition_keys df partition_cols)
    \<and> (\<forall>i<length mds. \<forall>md. mds ! i = Some md \<longrightarrow>
          md_file_path md
            = Some (join (sep st)
                      [join (sep st)
                         (map (\<lambda>(name, val). name @ ''='' @ str_value E val)
                            (zip partition_cols (partition_keys df partition_cols ! i))),
                       guid E (guid_count st + i) @ ''.parquet''])
          \<and> (\<forall>rg\<in>set (md_row_groups md). rgd_file_path rg = md_file_path md)
          \<and> fst (files st' ! (length (files st) + i))
              = root_path @ sep st @ the (md_file_path md))
    \<and> (engine_of kwargs = ''cudf'' \<longrightarrow>
          (\<forall>i<length mds. mds ! i \<noteq> None)
          \<and> (\<forall>root'. fst (write_to_dataset E df root' (Some partition_cols) preserve_index
                              True kwargs st) = Inr r))"
proof -
  let ?ks = "partition_keys df partition_cols"
  let ?path = "\<lambda>i. join (sep st)
                      [join (sep st)
                         (map (\<lambda>(name, val). name @ ''='' @ str_value E val)
                            (zip partition_cols (?ks ! i))),
                       guid E (guid_count st + i) @ ''.parquet'']"
  from write_to_dataset_returns[OF assms] obtain data_cols groups mds where
    dc: "index_drop (column_names df) partition_cols = Inr data_cols" "data_cols \<noteq> []"
    and groups: "get_partition_groups df partition_cols (preserve_index = Some True)
                 = Inr groups"
    and run: "write_groups E root_path partition_cols preserve_index True kwargs groups []
                (mkdirs root_path st) = (Inr mds, st')"
    and ret: "return_of_metadata mds = Inr r"
    by blast
  have ne: "\<forall>g\<in>set groups. rows g \<noteq> []"
    using partition_group_facts(3)[OF groups] by (auto simp: in_set_conv_nth)
  have lg: "length groups = length ?ks"
    using groups by (rule partition_group_facts(1))
  have len: "length mds = length ?ks"
    using write_groups_length[OF ne run] lg by simp
  have sub: "set partition_cols \<subseteq> set (column_names df)"
    and data: "\<exists>c\<in>set (column_names df). c \<notin> set partition_cols"
    using index_drop_Inr[OF dc] by blast+
  have cudf: "(\<forall>i<length mds.
          (\<exists>md. mds ! i = Some md \<and> md_file_path md = Some (?path i)
               \<and> (\<forall>rg\<in>set (md_row_groups md). rgd_file_path rg = md_file_path md))
          \<and> fst (files st' ! (length (files st) + i)) = root_path @ sep st @ ?path i)
        \<and> (\<forall>root'. fst (write_to_dataset E df root' (Some partition_cols) preserve_index
                              True kwargs st) = Inr r)"
    if eng: "engine_of kwargs = ''cudf''"
  proof -
    let ?M = "\<lambda>(k, g). Some (metadata_of
                              (group_file E partition_cols preserve_index kwargs g)
                              (Some (group_metadata_path E (sep st) partition_cols k g)))"
    let ?mds = "map ?M (enumerate (guid_count st) groups)"
    have w: "\<forall>g\<in>set groups. writable partition_cols g"
      using eng ne run by (rule write_groups_cudf_writable)
    have any: "\<exists>st''. write_groups E root partition_cols preserve_index True kwargs groups []
            (mkdirs root st) = (Inr ?mds, st'')
       \<and> files st'' = files st
           @ map (\<lambda>(k, g). (group_full_path E (sep st) root partition_cols k g,
                            group_file E partition_cols preserve_index kwargs g))
               (enumerate (guid_count st) groups)" for root
      using write_groups_ok[OF eng w, of E root preserve_index True "[]" "mkdirs root st"]
      by auto
    from any[of root_path] run have mds: "mds = ?mds"
      and fl: "files st' = files st
           @ map (\<lambda>(k, g). (group_full_path E (sep st) root_path partition_cols k g,
                            group_file E partition_cols preserve_index kwargs g))
               (enumerate (guid_count st) groups)"
      by auto
    have key: "group_subdir E (sep st) partition_cols (groups ! i)
           = join (sep st) (map (\<lambda>(name, val). name @ ''='' @ str_value E val)
                              (zip partition_cols (?ks ! i)))" if "i < length groups" for i
      using partition_group_key[OF groups that] by (simp add: group_subdir_def subdir_of_def)
    have each: "(\<exists>md. mds ! i = Some md \<and> md_file_path md = Some (?path i)
               \<and> (\<forall>rg\<in>set (md_row_groups md). rgd_file_path rg = md_file_path md))
          \<and> fst (files st' ! (length (files st) + i)) = root_path @ sep st @ ?path i"
      if "i < length mds" for i
    proof -
      from that have i: "i < length groups" using len lg by simp
      have "mds ! i = Some (metadata_of
                              (group_file E partition_cols preserve_index kwargs (groups ! i))
                              (Some (?path i)))"
        using i by (simp add: mds nth_enumerate_eq group_metadata_path_def key)
      moreover have "\<forall>rg\<in>set (md_row_groups (metadata_of f p)). rgd_file_path rg = p" for f p
        by (auto simp: metadata_of_def)
      moreover have "fst (files st' ! (length (files st) + i)) = root_path @ sep st @ ?path i"
        using i by (simp add: fl nth_append nth_enumerate_eq group_full_path_def key)
      ultimately show ?thesis by simp
    qed
    have other: "fst (write_to_dataset E df root' (Some partition_cols) preserve_index
                              True kwargs st) = Inr r" for root'
    proof -
      from any[of root'] obtain st'' where
        "write_groups E root' partition_cols preserve_index True kwargs groups []
            (mkdirs root' st) = (Inr mds, st'')"
        using mds by auto
      then show ?thesis
        using assms(1) dc groups ret by (simp add: write_to_dataset_def Let_def)
    qed
    show ?thesis using each other by blast
  qed
  have fallback: "mds ! i \<noteq> Some md" if "engine_of kwargs \<noteq> ''cudf''" "i < length mds" for i md
  proof -
    have "set mds \<subseteq> {None}"
      using write_groups_fallback[OF that(1) ne run] by simp
    moreover have "mds ! i \<in> set mds" using that(2) by simp
    ultimately show ?thesis by auto
  qed
  have paths: "\<forall>i<length mds. \<forall>md. mds ! i = Some md \<longrightarrow>
          md_file_path md = Some (?path i)
          \<and> (\<forall>rg\<in>set (md_row_groups md). rgd_file_path rg = md_file_path md)
          \<and> fst (files st' ! (length (files st) + i))
              = root_path @ sep st @ the (md_file_path md)"
  proof (intro allI impI)
    fix i md assume i: "i < length mds" and md: "mds ! i = Some md"
    then have "engine_of kwargs = ''cudf''" using fallback by blast
    from cudf[OF this] i md show "md_file_path md = Some (?path i)
          \<and> (\<forall>rg\<in>set (md_row_groups md). rgd_file_path rg = md_file_path md)
          \<and> fst (files st' ! (length (files st) + i))
              = root_path @ sep st @ the (md_file_path md)"
      by auto
  qed
  have some: "engine_of kwargs = ''cudf'' \<longrightarrow>
          (\<forall>i<length mds. mds ! i \<noteq> None)
          \<and> (\<forall>root'. fst (write_to_dataset E df root' (Some partition_cols) preserve_index
                              True kwargs st) = Inr r)"
    using cudf by auto
  show ?thesis
    using groups run ret len paths some by blast
qed


theorem metadata_file_path_relative_witness:
  "[''a'', ''b''] \<noteq> [] \<and> engine_of no_kwargs = ''cudf''
   \<and> (\<exists>r st' mds md0 md1.
         write_to_dataset example_env two_key_df ''root'' (Some [''a'', ''b'']) None True
           no_kwargs example_fs = (Inr r, st')
       \<and> return_of_metadata mds = Inr r
       \<and> mds = [Some md0, Some md1]
       \<and> md_file_path md0 = Some ''a=1/b=20/g0.parquet''
       \<and> md_file_path md1 = Some ''a=2/b=10/g1.parquet''
       \<and> fst (files st' ! 0) = ''root/a=1/b=20/g0.parquet''
       \<and> fst (files st' ! 1) = ''root/a=2/b=10/g1.parquet'')"
proof -
  let ?X = "write_to_dataset example_env two_key_df ''root'' (Some [''a'', ''b'']) None True
              no_kwargs example_fs"
  have h1: "[''a'', ''b''] \<noteq> []" by simp
  have "\<not> isl (fst ?X)" by code_simp
  then obtain r where "fst ?X = Inr r" by (cases "fst ?X") auto
  then have h2: "?X = (Inr r, snd ?X)" by (metis prod.collapse)
  from metadata_file_path_relative[OF h1 h2]
  obtain mds where
    ret: "return_of_metadata mds = Inr r"
    and len0: "length mds = length (partition_keys two_key_df [''a'', ''b''])"
    and paths: "\<forall>i<length mds. \<forall>md. mds ! i = Some md \<longrightarrow>
          md_file_path md
            = Some (join (sep example_fs)
                      [join (sep example_fs)
                         (map (\<lambda>(name, val). name @ ''='' @ str_value example_env val)
                            (zip [''a'', ''b''] (partition_keys two_key_df [''a'', ''b''] ! i))),
                       guid example_env (guid_count example_fs + i) @ ''.parquet''])
          \<and> (\<forall>rg\<in>set (md_row_groups md). rgd_file_path rg = md_file_path md)
          \<and> fst (files (snd ?X) ! (length (files example_fs) + i))
              = ''root'' @ sep example_fs @ the (md_file_path md)"
    and some: "engine_of no_kwargs = ''cudf'' \<longrightarrow> (\<forall>i<length mds. mds ! i \<noteq> None)"
    by blast
  have len: "length mds = 2" using len0 by (simp add: two_key_partition_keys)
  from some two_key_hyps(4) len obtain md0 md1 where
    m: "mds ! 0 = Some md0" "mds ! 1 = Some md1"
    by (metis not_None_eq one_less_numeral_iff semiring_norm(76) zero_less_numeral)
  have i0: "0 < length mds" and i1: "1 < length mds" using len by simp_all
  from paths[rule_format, OF i0 m(1)] have p0:
    "md_file_path md0 = Some ''a=1/b=20/g0.parquet''"
    "fst (files (snd ?X) ! 0) = ''root/a=1/b=20/g0.parquet''"
    by (simp_all add: two_key_partition_keys example_str_value example_guids example_fs_def)
  from paths[rule_format, OF i1 m(2)] have p1:
    "md_file_path md1 = Some ''a=2/b=10/g1.parquet''"
    "fst (files (snd ?X) ! 1) = ''root/a=2/b=10/g1.parquet''"
    by (simp_all add: two_key_partition_keys example_str_value example_guids example_fs_def)
  have mds: "mds = [Some md0, Some md1]"
    using len m by (auto simp: length_Suc_conv numeral_2_eq_2)
  show ?thesis
    using h2 ret mds p0 p1 two_key_hyps(4) by blast
qed

section \<open>The metadata that is returned\<close>

lemma write_to_dataset_single:
  assumes "partition_cols \<noteq> []"
    and "index_drop (column_names df) partition_cols = Inr data_cols" and "data_cols \<noteq> []"
    and "get_partition_groups df partition_cols (preserve_index = Some True) = Inr groups"
    and "write_groups E root_path partition_cols preserve_index return_metadata kwargs groups []
           (mkdirs root_path st) = (Inr [m], st')"
  shows "write_to_dataset E df root_path (Some partition_cols) preserve_index return_metadata
           kwargs st = (Inr m, st')"
  using assms by (simp add: write_to_dataset_def Let_def return_of_metadata_def)

lemma write_to_dataset_one_key:
  assumes pcs: "partition_cols \<noteq> []"
    and sub: "set partition_cols \<subseteq> set (column_names df)"
    and data: "\<exists>c\<in>set (column_names df). c \<notin> set partition_cols"
    and nc: "\<forall>c\<in>set (columns df). fst c \<notin> set partition_cols \<longrightarrow> snd c \<noteq> ''category''"
    and eng: "engine_of kwargs = ''cudf''"
    and one: "length (partition_keys df partition_cols) = 1"
  shows "\<exists>g md st1 st'.
      get_partition_groups df partition_cols (preserve_index = Some True) = Inr [g]
    \<and> to_parquet_kw E (without_columns g partition_cols)
         (join (sep st)
            [join (sep st)
               [root_path,
                join (sep st) (map (\<lambda>(name, val). name @ ''='' @ str_value E val)
                                 (zip partition_cols (partition_keys df partition_cols ! 0)))],
             guid E (guid_count st) @ ''.parquet''])
         preserve_index
         (Some (join (sep st)
                  [join (sep st) (map (\<lambda>(name, val). name @ ''='' @ str_value E val)
                                    (zip partition_cols (partition_keys df partition_cols ! 0))),
                   guid E (guid_count st) @ ''.parquet'']))
         kwargs st1 = (Inr (Some md), st')
    \<and> write_to_dataset E df root_path (Some partition_cols) preserve_index True kwargs st
        = (Inr (Some md), st')
    \<and> md_file_path md
        = Some (join (sep st)
                  [join (sep st) (map (\<lambda>(name, val). name @ ''='' @ str_value E val)
                                    (zip partition_cols (partition_keys df partition_cols ! 0))),
                   guid E (guid_count st) @ ''.parquet''])"
proof -
  let ?st0 = "mkdirs root_path st"
  from get_partition_groups_map[OF sub, of "preserve_index = Some True"]
  obtain groups where
    groups: "get_partition_groups df partition_cols (preserve_index = Some True) = Inr groups"
    by blast
  have "length groups = 1"
    using partition_group_facts(1)[OF groups] one by simp
  then obtain g where g: "groups = [g]"
    by (auto simp: length_Suc_conv)
  have i0: "0 < length groups" using g by simp
  have w: "writable partition_cols g"
    using partition_group_writable[OF groups nc] g by simp
  have key: "group_subdir E (sep st) partition_cols g
           = join (sep st) (map (\<lambda>(name, val). name @ ''='' @ str_value E val)
                              (zip partition_cols (partition_keys df partition_cols ! 0)))"
    using partition_group_key[OF groups i0] g by (simp add: group_subdir_def subdir_of_def)
  let ?sub = "join (sep st) (map (\<lambda>(name, val). name @ ''='' @ str_value E val)
                              (zip partition_cols (partition_keys df partition_cols ! 0)))"
  let ?out = "guid E (guid_count st) @ ''.parquet''"
  let ?f = "group_file E partition_cols preserve_index kwargs g"
  let ?md = "metadata_of ?f (Some (join (sep st) [?sub, ?out]))"
  let ?st1 = "(mkdirs (join (sep st) [root_path, ?sub]) ?st0)
                \<lparr>guid_count := Suc (guid_count st)\<rparr>"
  let ?st' = "?st1\<lparr>files := files ?st1 @ [(join (sep st) [join (sep st) [root_path, ?sub], ?out], ?f)]\<rparr>"
  have ncw: "\<not> (\<exists>col\<in>set (columns (without_columns g partition_cols)). snd col = ''category'')"
    using w by (simp add: writable_def)
  have tp: "to_parquet_kw E (without_columns g partition_cols)
         (join (sep st) [join (sep st) [root_path, ?sub], ?out]) preserve_index
         (Some (join (sep st) [?sub, ?out])) kwargs ?st1 = (Inr (Some ?md), ?st')"
    by (simp only: to_parquet_kw_ok[OF eng ncw] group_file_def)
  have wg: "write_groups E root_path partition_cols preserve_index True kwargs [g] [] ?st0
          = (Inr [Some ?md], ?st')"
    by (simp only: write_groups_step[OF eng w])
       (simp add: group_metadata_path_def group_full_path_def key)
  from index_drop_data_columns[OF sub data] obtain data_cols where
    dc: "index_drop (column_names df) partition_cols = Inr data_cols" "data_cols \<noteq> []"
    by auto
  have wd: "write_to_dataset E df root_path (Some partition_cols) preserve_index True kwargs st
        = (Inr (Some ?md), ?st')"
    using write_to_dataset_single[OF pcs dc groups[unfolded g] wg] .
  have "md_file_path ?md = Some (join (sep st) [?sub, ?out])" by simp
  with groups g tp wd show ?thesis by blast
qed

text \<open>
  Claim C5. For a metadata list of one element, the merge step of \<open>write_to_dataset\<close>
  (lines 141-146) returns that element as it is, the merger not being called. So a
  partitioned write whose loop collected one metadata object returns that object; and on
  the accelerated path, a partitioned write of a table with one distinct partition key
  writes one file and returns exactly the \<open>FileMetadata\<close> that the write of that file
  returned, its file path still the path of that file.
\<close>

theorem single_metadata_unchanged:
  "return_of_metadata [m] = Inr m
   \<and> (partition_cols \<noteq> [] \<longrightarrow>
        index_drop (column_names df) partition_cols = Inr data_cols \<longrightarrow> data_cols \<noteq> [] \<longrightarrow>
        get_partition_groups df partition_cols (preserve_index = Some True) = Inr groups \<longrightarrow>
        write_groups E root_path partition_cols preserve_index return_metadata kwargs groups []
          (mkdirs root_path st) = (Inr [m], st') \<longrightarrow>
        write_to_dataset E df root_path (Some partition_cols) preserve_index return_metadata
          kwargs st = (Inr m, st'))
   \<and> (partition_cols \<noteq> [] \<longrightarrow>
        set partition_cols \<subseteq> set (column_names df) \<longrightarrow>
        (\<exists>c\<in>set (column_names df). c \<notin> set partition_cols) \<longrightarrow>
        (\<forall>c\<in>set (columns df). fst c \<notin> set partition_cols \<longrightarrow> snd c \<noteq> ''category'') \<longrightarrow>
        engine_of kwargs = ''cudf'' \<longrightarrow>
        length (partition_keys df partition_cols) = 1 \<longrightarrow>
        (\<exists>g md st1 st2.
            get_partition_groups df partition_cols (preserve_index = Some True) = Inr [g]
          \<and> to_parquet_kw E (without_columns g partition_cols)
               (join (sep st)
                  [join (sep st)
                     [root_path,
                      join (sep st)
                        (map (\<lambda>(name, val). name @ ''='' @ str_value E val)
                           (zip partition_cols (partition_keys df partition_cols ! 0)))],
                   guid E (guid_count st) @ ''.parquet''])
               preserve_index
               (Some (join (sep st)
                        [join (sep st)
                           (map (\<lambda>(name, val). name @ ''='' @ str_value E val)
                              (zip partition_cols (partition_keys df partition_cols ! 0))),
                         guid E (guid_count st) @ ''.parquet'']))
               kwargs st1 = (Inr (Some md), st2)
          \<and> write_to_dataset E df root_path (Some partition_cols) preserve_index True kwargs st
              = (Inr (Some md), st2)
          \<and> md_file_path md
              = Some (join (sep st)
                        [join (sep st)
                           (map (\<lambda>(name, val). name @ ''='' @ str_value E val)
                              (zip partition_cols (partition_keys df partition_cols ! 0))),
                         guid E (guid_count st) @ ''.parquet''])))"
proof (intro conjI impI)
  show "return_of_metadata [m] = Inr m"
    by (simp add: return_of_metadata_def)
next
  assume "partition_cols \<noteq> []"
    and "index_drop (column_names df) partition_cols = Inr data_cols" and "data_cols \<noteq> []"
    and "get_partition_groups df partition_cols (preserve_index = Some True) = Inr groups"
    and "write_groups E root_path partition_cols preserve_index return_metadata kwargs groups []
          (mkdirs root_path st) = (Inr [m], st')"
  then show "write_to_dataset E df root_path (Some partition_cols) preserve_index
          return_metadata kwargs st = (Inr m, st')"
    by (simp add: write_to_dataset_def Let_def return_of_metadata_def)
qed (rule write_to_dataset_one_key, assumption+)

lemma one_key_hyps:
  "set [''grp''] \<subseteq> set (column_names one_key_df)"
  "\<exists>c\<in>set (column_names one_key_df). c \<notin> set [''grp'']"
  "\<forall>c\<in>set (columns one_key_df). fst c \<notin> set [''grp''] \<longrightarrow> snd c \<noteq> ''category''"
  "engine_of no_kwargs = ''cudf''"
  by (simp_all add: column_names_def one_key_df_def engine_of_def no_kwargs_def)

lemma one_key_partition_keys: "partition_keys one_key_df [''grp''] = [[Some 10]]"
  by code_simp

theorem single_metadata_unchanged_witness:
  "[''grp''] \<noteq> [] \<and> set [''grp''] \<subseteq> set (column_names one_key_df)
   \<and> (\<exists>c\<in>set (column_names one_key_df). c \<notin> set [''grp''])
   \<and> engine_of no_kwargs = ''cudf''
   \<and> length (partition_keys one_key_df [''grp'']) = 1
   \<and> (\<exists>md st'. write_to_dataset example_env one_key_df ''root'' (Some [''grp'']) None True
                   no_kwargs example_fs = (Inr (Some md), st')
          \<and> md_file_path md = Some ''grp=10/g0.parquet'')"
proof -
  have h1: "[''grp''] \<noteq> []" by simp
  have h6: "length (partition_keys one_key_df [''grp'']) = 1"
    by (simp add: one_key_partition_keys)
  from single_metadata_unchanged[where partition_cols = "[''grp'']" and df = one_key_df
      and kwargs = no_kwargs and E = example_env and st = example_fs
      and root_path = "''root''" and preserve_index = None, THEN conjunct2, THEN conjunct2,
      THEN mp, OF h1, THEN mp, OF one_key_hyps(1), THEN mp, OF one_key_hyps(2),
      THEN mp, OF one_key_hyps(3), THEN mp, OF one_key_hyps(4), THEN mp, OF h6]
  obtain md st' where
    "write_to_dataset example_env one_key_df ''root'' (Some [''grp'']) None True
                   no_kwargs example_fs = (Inr (Some md), st')"
    "md_file_path md
       = Some (join (sep example_fs)
                 [join (sep example_fs)
                    (map (\<lambda>(name, val). name @ ''='' @ str_value example_env val)
                       (zip [''grp''] (partition_keys one_key_df [''grp''] ! 0))),
                  guid example_env (guid_count example_fs) @ ''.parquet''])"
    by blast
  then show ?thesis
    using one_key_hyps(1,2,4) h6
    by (auto simp: one_key_partition_keys example_str_value example_guids example_fs_def)
qed

section \<open>Categorical columns\<close>

lemma write_groups_category:
  assumes eng: "engine_of kwargs = ''cudf''"
    and ne: "rows g \<noteq> []"
    and sub: "set partition_cols \<subseteq> set (column_names g)"
    and cat: "\<exists>col\<in>set (columns (without_columns g partition_cols)). snd col = ''category''"
  shows "fst (write_groups E root_path partition_cols preserve_index return_metadata kwargs
                (g # rest) metadata st) = Inl UnsupportedCategoricalType
       \<and> files (snd (write_groups E root_path partition_cols preserve_index return_metadata
                kwargs (g # rest) metadata st)) = files st"
proof -
  have dc: "drop_columns g partition_cols = Inr (without_columns g partition_cols)"
    using sub by (simp add: drop_columns_def)
  have tp: "to_parquet_kw E (without_columns g partition_cols) path index mfp kwargs s
          = (Inl UnsupportedCategoricalType, s)" for path index mfp s
    using eng cat by (simp add: to_parquet_kw_def to_parquet_file_def)
  show ?thesis
    using ne by (simp add: Let_def dc tp)
qed

lemma first_group_exists:
  assumes "get_partition_groups df cols p = Inr groups" and "rows df \<noteq> []"
  shows "groups \<noteq> []"
proof -
  have "set (partition_keys df cols) \<noteq> {}"
    using assms(2) by (simp add: set_partition_keys)
  then have "length (partition_keys df cols) \<noteq> 0" by auto
  then show ?thesis using partition_group_facts(1)[OF assms(1)] by auto
qed

text \<open>
  Claim C4, as amended. For a table with a categorical column, \<open>to_parquet\<close> with
  \<open>engine = "cudf"\<close> fails with \<open>UnsupportedCategoricalType\<close> and writes no file when
  there are no partition columns, and also when the table has a row, the partition columns
  are columns of the table and the categorical column is not one of them.
\<close>

theorem to_parquet_rejects_category:
  assumes "(c, ''category'') \<in> set (columns df)"
    and "partition_cols = None \<or> partition_cols = Some []
         \<or> (\<exists>cols. partition_cols = Some cols \<and> set cols \<subseteq> set (column_names df)
                    \<and> c \<notin> set cols \<and> rows df \<noteq> [])"
  shows "fst (to_parquet E df path ''cudf'' compression index partition_cols statistics
               metadata_file_path args kwargs st) = Inl UnsupportedCategoricalType
       \<and> files (snd (to_parquet E df path ''cudf'' compression index partition_cols statistics
               metadata_file_path args kwargs st)) = files st"
proof (cases "partition_cols = None \<or> partition_cols = Some []")
  case True
  then show ?thesis
    using assms(1) by (auto simp: to_parquet_def to_parquet_file_def)
next
  case False
  with assms(2) obtain cols where pc: "partition_cols = Some cols" and cols: "cols \<noteq> []"
    and sub: "set cols \<subseteq> set (column_names df)" and c: "c \<notin> set cols"
    and ne: "rows df \<noteq> []"
    by auto
  let ?kw = "\<lparr>kw_engine = None, kw_compression = None, kw_statistics = None,
                 kw_more = kw_other kwargs\<rparr>"
  let ?rm = "kw_return_metadata kwargs = Some True"
  let ?st = "mkdirs path st"
  have eng: "engine_of ?kw = ''cudf''" by (simp add: engine_of_def)
  from get_partition_groups_map[OF sub, of "index = Some True"] obtain groups where
    groups: "get_partition_groups df cols (index = Some True) = Inr groups"
    by blast
  from first_group_exists[OF groups ne] obtain g rest where gr: "groups = g # rest"
    by (cases groups) auto
  have g0: "0 < length groups" using gr by simp
  have g: "g = groups ! 0" using gr by simp
  have cg: "columns g = columns df"
    using partition_group_facts(2)[OF groups g0] g by simp
  have rg: "rows g \<noteq> []"
    using partition_group_facts(3)[OF groups g0] g by simp
  have sg: "set cols \<subseteq> set (column_names g)"
    using sub cg by (simp add: column_names_def)
  have cat: "\<exists>col\<in>set (columns (without_columns g cols)). snd col = ''category''"
    using assms(1) c cg by force
  have "c \<in> set (column_names df)"
    using assms(1) by (force simp: column_names_def)
  with c have "\<exists>c\<in>set (column_names df). c \<notin> set cols" by blast
  from index_drop_data_columns[OF sub this] obtain data_cols where
    dc: "index_drop (column_names df) cols = Inr data_cols" "length data_cols \<noteq> 0"
    by blast
  from write_groups_category[OF eng rg sg cat, of E path index ?rm rest "[]" ?st]
  obtain st' where
    wg: "write_groups E path cols index ?rm ?kw (g # rest) [] ?st
         = (Inl UnsupportedCategoricalType, st')"
    and fl: "files st' = files st"
    by (cases "write_groups E path cols index ?rm ?kw (g # rest) [] ?st") auto
  have "write_to_dataset E df path (Some cols) index ?rm ?kw st
      = (Inl UnsupportedCategoricalType, st')"
    using cols dc groups gr wg by (simp add: write_to_dataset_def Let_def)
  then show ?thesis
    using pc cols fl by (simp add: to_parquet_def)
qed

lemma category_df_hyps:
  "(''kind'', ''category'') \<in> set (columns category_df)"
  "set [''id''] \<subseteq> set (column_names category_df)"
  "''kind'' \<notin> set [''id'']"
  "rows category_df \<noteq> []"
  by (simp_all add: category_df_def column_names_def)

theorem to_parquet_rejects_category_witness:
  "(''kind'', ''category'') \<in> set (columns category_df)
   \<and> set [''id''] \<subseteq> set (column_names category_df) \<and> ''kind'' \<notin> set [''id'']
   \<and> rows category_df \<noteq> []
   \<and> fst (to_parquet example_env category_df ''root'' ''cudf'' Snappy None (Some [''id''])
            StatRowGroup None () \<lparr>kw_return_metadata = None, kw_other = ()\<rparr> example_fs)
       = Inl UnsupportedCategoricalType
   \<and> files (snd (to_parquet example_env category_df ''root'' ''cudf'' Snappy None
                   (Some [''id'']) StatRowGroup None ()
                   \<lparr>kw_return_metadata = None, kw_other = ()\<rparr> example_fs)) = []
   \<and> to_parquet example_env category_df ''f.parquet'' ''cudf'' Snappy None None
        StatRowGroup None () \<lparr>kw_return_metadata = None, kw_other = ()\<rparr> example_fs
       = (Inl UnsupportedCategoricalType, example_fs)"
proof -
  have h2: "Some [''id''] = None \<or> Some [''id''] = Some []
         \<or> (\<exists>cols. Some [''id''] = Some cols \<and> set cols \<subseteq> set (column_names category_df)
                    \<and> ''kind'' \<notin> set cols \<and> rows category_df \<noteq> [])"
    using category_df_hyps by simp
  have h3: "None = None \<or> None = Some []
         \<or> (\<exists>cols. None = Some cols \<and> set cols \<subseteq> set (column_names category_df)
                    \<and> ''kind'' \<notin> set cols \<and> rows category_df \<noteq> [])"
    by simp
  have single: "to_parquet example_env category_df ''f.parquet'' ''cudf'' Snappy None None
        StatRowGroup None () \<lparr>kw_return_metadata = None, kw_other = ()\<rparr> example_fs
       = (Inl UnsupportedCategoricalType, example_fs)"
    by (simp add: to_parquet_def to_parquet_file_def category_df_def)
  from to_parquet_rejects_category[OF category_df_hyps(1) h2, where E = example_env
      and path = "''root''" and compression = Snappy and index = None
      and statistics = StatRowGroup and metadata_file_path = None and args = "()"
      and kwargs = "\<lparr>kw_return_metadata = None, kw_other = ()\<rparr>" and st = example_fs]
    to_parquet_rejects_category[OF category_df_hyps(1) h3, where E = example_env
      and path = "''f.parquet''" and compression = Snappy and index = None
      and statistics = StatRowGroup and metadata_file_path = None and args = "()"
      and kwargs = "\<lparr>kw_return_metadata = None, kw_other = ()\<rparr>" and st = example_fs]
  show ?thesis
    using category_df_hyps single by (simp add: example_fs_def)
qed

text \<open>
  The claim as stated fails when the categorical column is a partition column: it is
  dropped before the writer sees the group, and the write succeeds.
\<close>

theorem to_parquet_rejects_category_counterexample:
  "(''grp'', ''category'') \<in> set (columns category_key_df)
   \<and> fst (to_parquet example_env category_key_df ''root'' ''cudf'' Snappy None (Some [''grp''])
            StatRowGroup None () \<lparr>kw_return_metadata = None, kw_other = ()\<rparr> example_fs)
       = Inr None
   \<and> map fst (files (snd (to_parquet example_env category_key_df ''root'' ''cudf'' Snappy None
                   (Some [''grp'']) StatRowGroup None ()
                   \<lparr>kw_return_metadata = None, kw_other = ()\<rparr> example_fs)))
       = [''root/grp=10/g0.parquet'']"
  by code_simp

section \<open>What the partitioned to_parquet returns\<close>

text \<open>
  Claim C3. \<open>write_to_dataset\<close> collects the metadata of each group and returns their
  merge, yet \<open>to_parquet\<close> with partition columns drops what \<open>write_to_dataset\<close> returns
  (the bare \<open>return\<close> of line 227): on the example table with metadata requested it
  returns \<open>None\<close>, where \<open>write_to_dataset\<close> on the same input returns the merged
  metadata.
\<close>

theorem to_parquet_partitioned_returns_none:
  "fst (to_parquet example_env example_df ''root'' ''cudf'' Snappy None (Some [''grp''])
          StatRowGroup None () \<lparr>kw_return_metadata = Some True, kw_other = ()\<rparr> example_fs)
     = Inr None
   \<and> fst (write_to_dataset example_env example_df ''root'' (Some [''grp'']) None True
            no_kwargs example_fs)
     = Inr (Some \<lparr>md_schema = [(''id'', ''int64'')],
                  md_row_groups =
                    [\<lparr>rgd_num_rows = 2, rgd_file_path = Some ''grp=10/g0.parquet''\<rparr>,
                     \<lparr>rgd_num_rows = 2, rgd_file_path = Some ''grp=20/g1.parquet''\<rparr>],
                  md_file_path = None\<rparr>)"
  by code_simp

section \<open>The codec gives back what it was given\<close>

lemma rle_decode_Cons:
  "rle_decode ((b, n) # runs) = replicate n b @ rle_decode runs"
  by (simp add: rle_decode_def)

lemma rle_roundtrip: "rle_decode (rle_encode bs) = bs"
proof (induction bs)
  case Nil
  then show ?case by (simp add: rle_decode_def)
next
  case (Cons b bs)
  show ?case
  proof (cases "rle_encode bs")
    case Nil
    with Cons show ?thesis by (simp add: rle_decode_def)
  next
    case (Cons run rest)
    obtain c n where run: "run = (c, n)" by (cases run)
    from Cons.IH Cons run have bs: "bs = replicate n c @ rle_decode rest"
      by (simp add: rle_decode_Cons)
    show ?thesis
      using Cons run bs by (simp add: rle_decode_Cons)
  qed
qed

lemma dict_index_less: "v \<in> set dict \<Longrightarrow> dict_index dict v < length dict"
  by (induction dict) (auto simp: dict_index_def)

lemma dict_index_nth: "v \<in> set dict \<Longrightarrow> dict ! dict_index dict v = v"
  by (induction dict) (auto simp: dict_index_def)

lemma values_roundtrip: "decode_values (encode_values vs) = Some vs"
proof (cases "2 * length (drop_duplicates vs) < length vs")
  case True
  have "map (\<lambda>i. drop_duplicates vs ! i) (map (dict_index (drop_duplicates vs)) vs) = vs"
    by (simp add: dict_index_nth map_idI)
  moreover have "\<forall>i\<in>set (map (dict_index (drop_duplicates vs)) vs).
      i < length (drop_duplicates vs)"
    by (auto simp: dict_index_less)
  ultimately show ?thesis
    using True by (simp add: encode_values_def decode_values_def Let_def)
next
  case False
  then show ?thesis by (simp add: encode_values_def decode_values_def Let_def)
qed

lemma fill_roundtrip:
  "fill_column (map (\<lambda>c. c \<noteq> None) col)
     (concat (map (\<lambda>c. case c of None \<Rightarrow> [] | Some v \<Rightarrow> [v]) col)) = Some col"
proof (induction col)
  case Nil
  then show ?case by simp
next
  case (Cons c col)
  then show ?case by (cases c) simp_all
qed

lemma codec_id_recognized: "codec_id c \<in> set recognized_codecs"
  by (cases c) (simp_all add: codec_id_def recognized_codecs_def)

lemma chunk_roundtrip: "decode_chunk (encode_chunk compression statistics col) = Inr col"
  by (simp add: decode_chunk_def encode_chunk_def codec_id_recognized values_roundtrip
      rle_roundtrip fill_roundtrip del: not_None_eq)

lemma sequence_sum_Inr: "sequence_sum (map Inr xs) = Inr xs"
  by (induction xs) simp_all

lemma sequence_sum_map:
  "(\<And>x. x \<in> set xs \<Longrightarrow> f x = Inr (g x)) \<Longrightarrow> sequence_sum (map f xs) = Inr (map g xs)"
  by (induction xs) simp_all

lemma row_group_roundtrip:
  assumes "\<forall>cells\<in>set slice. length cells = ncols"
  shows "decode_row_group ncols (assemble compression statistics ncols slice) = Inr slice"
proof -
  let ?cols = "map (\<lambda>j. map (\<lambda>cells. cells ! j) slice) [0..<ncols]"
  have seq: "sequence_sum (map decode_chunk
               (map (\<lambda>j. encode_chunk compression statistics (map (\<lambda>cells. cells ! j) slice))
                  [0..<ncols])) = Inr ?cols"
    by (simp add: comp_def chunk_roundtrip sequence_sum_map)
  have len: "\<not> (\<exists>c\<in>set ?cols. length c \<noteq> length slice)" by auto
  have "map (\<lambda>i. map (\<lambda>c. c ! i) ?cols) [0..<length slice] = slice"
  proof (rule nth_equalityI)
    show "length (map (\<lambda>i. map (\<lambda>c. c ! i) ?cols) [0..<length slice]) = length slice"
      by simp
  next
    fix i assume "i < length (map (\<lambda>i. map (\<lambda>c. c ! i) ?cols) [0..<length slice])"
    then have i: "i < length slice" by simp
    then have l: "length (slice ! i) = ncols" using assms by simp
    have "map (\<lambda>c. c ! i) ?cols = map (\<lambda>j. slice ! i ! j) [0..<ncols]"
      using i by (simp add: comp_def)
    also have "\<dots> = slice ! i"
      using l map_nth[of "slice ! i"] by simp
    finally show "map (\<lambda>i. map (\<lambda>c. c ! i) ?cols) [0..<length slice] ! i = slice ! i"
      using i by simp
  qed
  then show ?thesis
    using seq len by (simp add: decode_row_group_def assemble_def)
qed

lemma concat_chunk_rows: "concat (chunk_rows n xs) = xs"
proof (induction n xs rule: chunk_rows.induct)
  case (1 n xs)
  show ?case
  proof (cases "xs = [] \<or> n = 0")
    case True
    then show ?thesis by (subst chunk_rows.simps) auto
  next
    case False
    then have "concat (chunk_rows n (drop n xs)) = drop n xs"
      using "1.IH" by simp
    then show ?thesis
      using False by (subst chunk_rows.simps) simp
  qed
qed

lemma lookup_file_written:
  "lookup_file (st\<lparr>files := files st @ [(path, f)]\<rparr>) path = Some f"
  by (simp add: lookup_file_def)

lemma read_file_of_parts:
  assumes wf: "\<forall>r\<in>set (rows df). length (snd r) = length (columns df)"
    and parts: "concat parts = map snd (rows df)"
  shows "read_file (file_of_parts df index compression statistics parts)
           None None None None None False use_pandas_metadata
       = Inr \<lparr>columns = columns df,
              rows = zip (if use_pandas_metadata \<and> index \<noteq> Some False then map fst (rows df)
                          else [0..<length (rows df)])
                       (map snd (rows df))\<rparr>"
proof -
  let ?n = "length (columns df)"
  have cells: "\<forall>slice\<in>set parts. \<forall>cells\<in>set slice. length cells = ?n"
  proof (intro ballI)
    fix slice cells assume "slice \<in> set parts" "cells \<in> set slice"
    then have "cells \<in> set (concat parts)" by auto
    then show "length cells = ?n" using wf parts by auto
  qed
  have seq: "sequence_sum (map (decode_row_group ?n)
               (map (assemble compression statistics ?n) parts)) = Inr parts"
    using cells sequence_sum_map[of parts
        "\<lambda>p. decode_row_group ?n (assemble compression statistics ?n p)" "\<lambda>p. p"]
    by (simp add: comp_def row_group_roundtrip)
  have keep: "map snd (zip (columns df) cs) = cs" if "cs \<in> set (map snd (rows df))" for cs
    using that wf by (auto simp: map_snd_zip)
  have keep': "map (\<lambda>x. map snd (zip (columns df) (snd x))) (rows df) = map snd (rows df)"
    using keep by simp
  show ?thesis
    using seq parts
    by (simp add: read_file_def file_of_parts_def Let_def comp_def keep')
qed

section \<open>Writing and reading back\<close>

lemma read_back_same:
  assumes "read = Inr \<lparr>columns = columns df,
              rows = zip (if index \<noteq> Some False then map fst (rows df)
                          else [0..<length (rows df)])
                       (map snd (rows df))\<rparr>"
  shows "\<exists>df'. read = Inr df' \<and> columns df' = columns df
           \<and> map snd (rows df') = map snd (rows df)
           \<and> (index \<noteq> Some False \<longrightarrow> df' = df)"
proof -
  have "\<lparr>columns = columns df, rows = zip (map fst (rows df)) (map snd (rows df))\<rparr> = df"
    by (cases df) (simp add: zip_map_fst_snd)
  then show ?thesis using assms by auto
qed

text \<open>
  Claim C8, as amended. For a table with no categorical column (every row having one cell
  per column), writing it with the accelerated engine and reading the file back with the
  accelerated engine and the default arguments yields a table with the same columns and
  the same rows in the same order, and the same table, index labels included, unless the
  index was left out of the file. This holds for the writer's row groups of any size, and
  reading gives the same for any cut of the rows into consecutive row groups.
\<close>

theorem write_read_roundtrip:
  assumes "\<forall>r\<in>set (rows df). length (snd r) = length (columns df)"
    and "\<forall>c\<in>set (columns df). snd c \<noteq> ''category''"
    and "get_filepath_or_buffer E path kwargs' = Inr (path, None)"
  shows "(\<exists>md st'.
           to_parquet E df path ''cudf'' compression index None statistics metadata_file_path
             args kwargs st = (Inr md, st')
         \<and> (\<exists>df'. read_parquet E path ''cudf'' None None None None None False True args' kwargs'
                     st' = Inr df'
                 \<and> columns df' = columns df
                 \<and> map snd (rows df') = map snd (rows df)
                 \<and> (index \<noteq> Some False \<longrightarrow> df' = df)))
       \<and> (\<forall>parts. concat parts = map snd (rows df) \<longrightarrow>
            (\<exists>df'. read_file (file_of_parts df index compression statistics parts)
                      None None None None None False True = Inr df'
                 \<and> columns df' = columns df
                 \<and> map snd (rows df') = map snd (rows df)
                 \<and> (index \<noteq> Some False \<longrightarrow> df' = df)))"
proof (intro conjI allI impI)
  fix parts :: "'a option list list list"
  assume "concat parts = map snd (rows df)"
  from read_file_of_parts[OF assms(1) this, of index compression statistics True]
  show "\<exists>df'. read_file (file_of_parts df index compression statistics parts)
                      None None None None None False True = Inr df'
                 \<and> columns df' = columns df
                 \<and> map snd (rows df') = map snd (rows df)
                 \<and> (index \<noteq> Some False \<longrightarrow> df' = df)"
    by (intro read_back_same) simp
next
  let ?f = "encode_file (row_group_size_rows E) df index compression statistics"
  let ?st = "st\<lparr>files := files st @ [(path, ?f)]\<rparr>"
  have w: "to_parquet E df path ''cudf'' compression index None statistics metadata_file_path
             args kwargs st = (Inr (Some (metadata_of ?f metadata_file_path)), ?st)"
    using assms(2)
    by (auto simp: to_parquet_def to_parquet_file_def libparquet_write_parquet_def Let_def)
  have parts: "concat (chunk_rows (row_group_size_rows E) (map snd (rows df)))
             = map snd (rows df)"
    by (rule concat_chunk_rows)
  have "read_parquet E path ''cudf'' None None None None None False True args' kwargs' ?st
      = read_file ?f None None None None None False True"
    using assms(3)
    by (simp add: read_parquet_def libparquet_read_parquet_def lookup_file_written)
  also have "\<dots> = Inr \<lparr>columns = columns df,
              rows = zip (if index \<noteq> Some False then map fst (rows df)
                          else [0..<length (rows df)])
                       (map snd (rows df))\<rparr>"
    using read_file_of_parts[OF assms(1) parts, of index compression statistics True]
    by (simp add: encode_file_def)
  finally have "\<exists>df'. read_parquet E path ''cudf'' None None None None None False True args'
                     kwargs' ?st = Inr df'
                 \<and> columns df' = columns df
                 \<and> map snd (rows df') = map snd (rows df)
                 \<and> (index \<noteq> Some False \<longrightarrow> df' = df)"
    by (rule read_back_same)
  with w show "\<exists>md st'.
           to_parquet E df path ''cudf'' compression index None statistics metadata_file_path
             args kwargs st = (Inr md, st')
         \<and> (\<exists>df'. read_parquet E path ''cudf'' None None None None None False True args' kwargs'
                     st' = Inr df'
                 \<and> columns df' = columns df
                 \<and> map snd (rows df') = map snd (rows df)
                 \<and> (index \<noteq> Some False \<longrightarrow> df' = df))"
    by blast
qed

theorem write_read_roundtrip_witness:
  "get_filepath_or_buffer example_env ''f.parquet'' () = Inr (''f.parquet'', None)
   \<and> read_parquet example_env ''f.parquet'' ''cudf'' None None None None None False True () ()
       example_written = Inr example_df
   \<and> length (file_row_groups (snd (hd (files example_written)))) = 2"
proof -
  have h1: "\<forall>r\<in>set (rows example_df). length (snd r) = length (columns example_df)"
    by (simp add: example_df_def)
  have h2: "\<forall>c\<in>set (columns example_df). snd c \<noteq> ''category''"
    by (simp add: example_df_def)
  have h3: "get_filepath_or_buffer example_env ''f.parquet'' () = Inr (''f.parquet'', None)"
    by (simp add: example_env_def)
  have n: "length (file_row_groups (snd (hd (files example_written)))) = 2"
    by code_simp
  from write_read_roundtrip[OF h1 h2 h3, where compression = Snappy and index = None
      and statistics = StatRowGroup and metadata_file_path = None and args = "()"
      and kwargs = "\<lparr>kw_return_metadata = None, kw_other = ()\<rparr>" and st = example_fs
      and args' = "()"]
  show ?thesis
    using h3 n by (auto simp: example_written_def)
qed

text \<open>
  The claim as stated fails for a table with a categorical column: the write is rejected,
  so there is no file to read back.
\<close>

theorem write_read_roundtrip_counterexample:
  "(''kind'', ''category'') \<in> set (columns category_df)
   \<and> fst (to_parquet example_env category_df ''f.parquet'' ''cudf'' Snappy None None
            StatRowGroup None () \<lparr>kw_return_metadata = None, kw_other = ()\<rparr> example_fs)
       = Inl UnsupportedCategoricalType
   \<and> read_parquet example_env ''f.parquet'' ''cudf'' None None None None None False True () ()
        (snd (to_parquet example_env category_df ''f.parquet'' ''cudf'' Snappy None None
                StatRowGroup None () \<lparr>kw_return_metadata = None, kw_other = ()\<rparr> example_fs))
       = Inl FileNotFound"
  by code_simp

end
